theory Spec2Isabelle
  imports Complex_Main
begin

section \<open>Numbers of the source (IEEE 754 binary64)\<close>

text \<open>
  A JavaScript number is a double: a finite value, negative zero, \<open>NaN\<close> or one of the two
  infinities. A finite double is held as the real number it denotes, and \<open>Finite 0\<close> is
  positive zero. The type admits every real as a finite value; the doubles among them are
  the values of \<open>roundDouble\<close>, and what is proved for every value holds for every
  double. The operations \<open>/\<close>, \<open>*\<close> and \<open>-\<close> of the source compute the exact
  result and round it to the nearest double, ties to the even significand; the comparisons
  \<open><\<close> and \<open><=\<close> are false as soon as an operand is \<open>NaN\<close>.
\<close>

datatype jsnumber = Finite real | NegZero | NaN | PosInfinity | NegInfinity

definition pow2 :: "int \<Rightarrow> real" where
  "pow2 e = (if 0 \<le> e then 2 ^ nat e else 1 / 2 ^ nat (- e))"

text \<open>The position of the leading bit of a positive integer.\<close>

function ilog2 :: "int \<Rightarrow> int" where
  "ilog2 n = (if n \<le> 1 then 0 else 1 + ilog2 (n div 2))"
  by pat_completeness auto
termination
  by (relation "measure nat") auto

declare ilog2.simps [simp del]

text \<open>The binary exponent of a positive real \<open>x\<close>: \<open>2^e \<le> x < 2^(e+1)\<close>.\<close>

definition exponentOf :: "real \<Rightarrow> int" where
  "exponentOf x = (if 1 \<le> x then ilog2 \<lfloor>x\<rfloor> else - (ilog2 (\<lceil>1 / x\<rceil> - 1) + 1))"

definition roundHalfEven :: "real \<Rightarrow> int" where
  "roundHalfEven q =
     (let f = \<lfloor>q\<rfloor>; d = q - of_int f
      in if d < 1 / 2 then f else if 1 / 2 < d then f + 1 else if even f then f else f + 1)"

text \<open>
  Rounding of a positive real: 53 significant bits at the exponent of \<open>x\<close>, which is at
  least \<open>-1022\<close> (below it the doubles are subnormal, with spacing \<open>2^-1074\<close>); a result
  of \<open>2^1024\<close> or more is \<open>Infinity\<close>.
\<close>

definition roundPos :: "real \<Rightarrow> jsnumber" where
  "roundPos x =
     (let e = max (exponentOf x) (- 1022);
          ulp = pow2 (e - 52);
          y = of_int (roundHalfEven (x / ulp)) * ulp
      in if pow2 1024 \<le> y then PosInfinity else Finite y)"

fun negateNum :: "jsnumber \<Rightarrow> jsnumber" where
  "negateNum (Finite x) = (if x = 0 then NegZero else Finite (- x))"
| "negateNum NegZero = Finite 0"
| "negateNum NaN = NaN"
| "negateNum PosInfinity = NegInfinity"
| "negateNum NegInfinity = PosInfinity"

definition roundDouble :: "real \<Rightarrow> jsnumber" where
  "roundDouble x =
     (if x = 0 then Finite 0 else if 0 < x then roundPos x else negateNum (roundPos (- x)))"

text \<open>A decimal literal of the source denotes the double nearest to it.\<close>

definition lit :: "real \<Rightarrow> jsnumber" where
  "lit x = roundDouble x"

fun isNaN :: "jsnumber \<Rightarrow> bool" where
  "isNaN NaN = True"
| "isNaN _ = False"

fun isInfinite :: "jsnumber \<Rightarrow> bool" where
  "isInfinite PosInfinity = True"
| "isInfinite NegInfinity = True"
| "isInfinite _ = False"

text \<open>\<open>Number.isFinite\<close>.\<close>

fun isFinite :: "jsnumber \<Rightarrow> bool" where
  "isFinite (Finite x) = True"
| "isFinite NegZero = True"
| "isFinite _ = False"

fun signBit :: "jsnumber \<Rightarrow> bool" where
  "signBit (Finite x) = (x < 0)"
| "signBit NegZero = True"
| "signBit NegInfinity = True"
| "signBit _ = False"

fun valueOf :: "jsnumber \<Rightarrow> real" where
  "valueOf (Finite x) = x"
| "valueOf _ = 0"

definition isZero :: "jsnumber \<Rightarrow> bool" where
  "isZero a = (isFinite a \<and> valueOf a = 0)"

fun rank :: "jsnumber \<Rightarrow> int" where
  "rank PosInfinity = 1"
| "rank NegInfinity = - 1"
| "rank _ = 0"

text \<open>The comparisons \<open>a < b\<close> and \<open>a <= b\<close>; the two zeros compare equal.\<close>

definition lessNum :: "jsnumber \<Rightarrow> jsnumber \<Rightarrow> bool" where
  "lessNum a b =
     (\<not> isNaN a \<and> \<not> isNaN b \<and> (rank a < rank b \<or> rank a = rank b \<and> valueOf a < valueOf b))"

definition leNum :: "jsnumber \<Rightarrow> jsnumber \<Rightarrow> bool" where
  "leNum a b =
     (\<not> isNaN a \<and> \<not> isNaN b \<and> (rank a < rank b \<or> rank a = rank b \<and> valueOf a \<le> valueOf b))"

definition withSign :: "bool \<Rightarrow> jsnumber \<Rightarrow> jsnumber" where
  "withSign negative magnitude = (if negative then negateNum magnitude else magnitude)"

text \<open>The quotient \<open>a / b\<close>, the product \<open>a * b\<close> and the difference \<open>a - b\<close>.\<close>

definition fdiv :: "jsnumber \<Rightarrow> jsnumber \<Rightarrow> jsnumber" where
  "fdiv a b =
     (if isNaN a \<or> isNaN b then NaN
      else if isInfinite a then
        (if isInfinite b then NaN else withSign (signBit a \<noteq> signBit b) PosInfinity)
      else if isInfinite b then withSign (signBit a \<noteq> signBit b) (Finite 0)
      else if isZero b then
        (if isZero a then NaN else withSign (signBit a \<noteq> signBit b) PosInfinity)
      else if isZero a then withSign (signBit a \<noteq> signBit b) (Finite 0)
      else roundDouble (valueOf a / valueOf b))"

definition fmul :: "jsnumber \<Rightarrow> jsnumber \<Rightarrow> jsnumber" where
  "fmul a b =
     (if isNaN a \<or> isNaN b then NaN
      else if isInfinite a \<or> isInfinite b then
        (if isZero a \<or> isZero b then NaN else withSign (signBit a \<noteq> signBit b) PosInfinity)
      else if isZero a \<or> isZero b then withSign (signBit a \<noteq> signBit b) (Finite 0)
      else roundDouble (valueOf a * valueOf b))"

definition fsub :: "jsnumber \<Rightarrow> jsnumber \<Rightarrow> jsnumber" where
  "fsub a b =
     (if isNaN a \<or> isNaN b then NaN
      else if isInfinite a then (if isInfinite b \<and> signBit a = signBit b then NaN else a)
      else if isInfinite b then negateNum b
      else if valueOf a - valueOf b = 0 then
        (if signBit a \<and> \<not> signBit b then NegZero else Finite 0)
      else roundDouble (valueOf a - valueOf b))"

section \<open>Layout engine (og.template.tsx)\<close>

datatype LayoutType = Portrait | Square | Landscape | Wide

datatype Arrangement = Split | Stack | WideArrangement

datatype PhotoFit = Cover | Contain

record PhotoBox =
  maxWidth :: jsnumber
  maxHeight :: jsnumber

record LayoutConfig =
  layoutType :: LayoutType
  arrangement :: Arrangement
  padding :: jsnumber
  gap :: jsnumber
  photoBox :: PhotoBox
  infoCompact :: bool
  photoFit :: PhotoFit

definition CANVAS_width :: jsnumber where
  "CANVAS_width = Finite 1200"

definition CANVAS_height :: jsnumber where
  "CANVAS_height = Finite 628"

definition ogAspect :: jsnumber where
  "ogAspect = fdiv CANVAS_width CANVAS_height"

text \<open>
  Lines 95-98 of \<open>determineLayout\<close>: an aspect that is not finite, or is \<open><= 0\<close>, is
  replaced by 1.
\<close>

definition finalAspect :: "jsnumber \<Rightarrow> jsnumber" where
  "finalAspect a = (if \<not> isFinite a \<or> leNum a (Finite 0) then Finite 1 else a)"

definition determineLayout :: "jsnumber \<Rightarrow> LayoutConfig" where
  "determineLayout aspect =
     (let fa = finalAspect aspect in
      if lessNum fa (lit 0.9) then
        \<lparr>layoutType = Portrait, arrangement = Split, padding = Finite 60, gap = Finite 44,
         photoBox = \<lparr>maxWidth = fmul CANVAS_width (lit 0.44),
                     maxHeight = fsub CANVAS_height (fmul (Finite 60) (Finite 2))\<rparr>,
         infoCompact = False, photoFit = Cover\<rparr>
      else if leNum fa (lit 1.1) then
        \<lparr>layoutType = Square, arrangement = Split, padding = Finite 60, gap = Finite 44,
         photoBox = \<lparr>maxWidth = fmul CANVAS_width (lit 0.5),
                     maxHeight = fsub CANVAS_height (fmul (Finite 60) (Finite 2))\<rparr>,
         infoCompact = False, photoFit = Cover\<rparr>
      else if leNum (lit 2.35) fa then
        \<lparr>layoutType = Wide, arrangement = WideArrangement, padding = Finite 50, gap = Finite 28,
         photoBox = \<lparr>maxWidth = fsub CANVAS_width (fmul (Finite 50) (Finite 2)),
                     maxHeight = Finite 340\<rparr>,
         infoCompact = True, photoFit = Contain\<rparr>
      else
        \<lparr>layoutType = Landscape,
         arrangement = (if leNum (fdiv fa ogAspect) (lit 0.82) then Split else Stack),
         padding = Finite 54, gap = Finite 26,
         photoBox = \<lparr>maxWidth = fsub CANVAS_width (fmul (Finite 54) (Finite 2)),
                     maxHeight = Finite 410\<rparr>,
         infoCompact = False, photoFit = Cover\<rparr>)"

record Size =
  width :: jsnumber
  height :: jsnumber

text \<open>\<open>fitWithinBox\<close>, lines 165-173.\<close>

definition fitWithinBox :: "jsnumber \<Rightarrow> PhotoBox \<Rightarrow> Size" where
  "fitWithinBox aspect box =
     (let w = maxWidth box; h = fdiv w aspect in
      if lessNum (maxHeight box) h
      then \<lparr>width = fmul (maxHeight box) aspect, height = maxHeight box\<rparr>
      else \<lparr>width = w, height = h\<rparr>)"

text \<open>
  Lines 58-60 of \<open>OgTemplate\<close>: each of the two dimensions is kept when it is finite and
  positive and is 1 otherwise; the aspect of the photo is their quotient.
\<close>

definition photoAspect :: "jsnumber \<times> jsnumber \<Rightarrow> jsnumber" where
  "photoAspect dims =
     (let w = (if isFinite (fst dims) \<and> lessNum (Finite 0) (fst dims) then fst dims else Finite 1);
          h = (if isFinite (snd dims) \<and> lessNum (Finite 0) (snd dims) then snd dims else Finite 1)
      in fdiv w h)"

text \<open>
  \<open>PhotoFrame\<close>, lines 340-401: without a source (\<open>!src\<close>: absent or empty) it is the box
  that says \<open>No Preview\<close>, else the image in a box of the same size.
\<close>

datatype FrameElement =
    NoPreview jsnumber jsnumber
  | Image jsnumber jsnumber PhotoFit string

definition PhotoFrame :: "jsnumber \<Rightarrow> jsnumber \<Rightarrow> PhotoFit \<Rightarrow> string option \<Rightarrow> FrameElement" where
  "PhotoFrame w h fit src =
     (case src of
        None \<Rightarrow> NoPreview w h
      | Some s \<Rightarrow> if s = [] then NoPreview w h else Image w h fit s)"

section \<open>Metadata summary (og-image-storage/index.ts)\<close>

text \<open>
  A value that the manifest stores as a string or as a number. \<open>truthy\<close> is the test that
  \<open>if (v)\<close>, \<open>v ? a : b\<close>, \<open>v || w\<close> and \<open>!v\<close> apply: the empty string, the two
  zeros and \<open>NaN\<close> are false.
\<close>

datatype jsvalue = JString string | JNumber jsnumber

fun truthy :: "jsvalue \<Rightarrow> bool" where
  "truthy (JString s) = (s \<noteq> [])"
| "truthy (JNumber (Finite x)) = (x \<noteq> 0)"
| "truthy (JNumber NegZero) = False"
| "truthy (JNumber NaN) = False"
| "truthy (JNumber _) = True"

fun truthyStr :: "string option \<Rightarrow> bool" where
  "truthyStr None = False"
| "truthyStr (Some s) = (s \<noteq> [])"

fun truthyVal :: "jsvalue option \<Rightarrow> bool" where
  "truthyVal None = False"
| "truthyVal (Some v) = truthy v"

text \<open>
  A template literal turns a number into text with the runtime's number printer, which is a
  parameter of the model.
\<close>

fun toStr :: "(jsnumber \<Rightarrow> string) \<Rightarrow> jsvalue \<Rightarrow> string" where
  "toStr numberToString (JString s) = s"
| "toStr numberToString (JNumber n) = numberToString n"

text \<open>
  \<open>String.prototype.trim\<close> removes white space and line terminators at both ends. A
  string of this theory is a list of characters with codes below 256 (its code units, for a
  text of Latin-1); of the characters that \<open>trim\<close> removes, these are the tab, the line
  feed, the vertical tab, the form feed, the carriage return, the space and the no-break
  space U+00A0. A text with a code unit from 256 on is outside this theory.
\<close>

definition isWhitespace :: "char \<Rightarrow> bool" where
  "isWhitespace c =
     (c \<in> set [CHR '' '', CHR 0x09, CHR 0x0A, CHR 0x0B, CHR 0x0C, CHR 0x0D, CHR 0xA0])"

definition trim :: "string \<Rightarrow> string" where
  "trim s = rev (dropWhile isWhitespace (rev (dropWhile isWhitespace s)))"

text \<open>
  Modelled from the spec: the catalog item and its raw metadata block (spec section 3); their
  type declarations (\<open>types/photo.ts\<close>) are not among the sources. There is one field for
  each that the plugin reads. The two focal lengths, make and model are strings (the code
  trims them and stores them in string fields); f-number, ISO and exposure time are strings
  or numbers.
\<close>

record PickedExif =
  FocalLengthIn35mmFormat :: "string option"
  FocalLength :: "string option"
  FNumber :: "jsvalue option"
  ISO :: "jsvalue option"
  ExposureTime :: "jsvalue option"
  Make :: "string option"
  Model :: "string option"
  DateTimeOriginal :: "string option"

record PhotoManifestItem =
  item_id :: string
  title :: "string option"
  tags :: "string list option"
  item_width :: jsnumber
  item_height :: jsnumber
  exif :: "PickedExif option"
  lastModified :: "string option"
  thumbnailUrl :: "string option"
  ogImageUrl :: "string option"

record ExifInfo =
  focalLength :: "string option"
  aperture :: "string option"
  iso :: "jsvalue option"
  shutterSpeed :: "string option"
  camera :: "string option"

definition buildExifInfo :: "(jsnumber \<Rightarrow> string) \<Rightarrow> PhotoManifestItem \<Rightarrow> ExifInfo option" where
  "buildExifInfo numberToString photo =
     (case exif photo of
        None \<Rightarrow> None
      | Some ex \<Rightarrow>
          (let fl = (if truthyStr (FocalLengthIn35mmFormat ex)
                     then FocalLengthIn35mmFormat ex else FocalLength ex);
               ap = (case FNumber ex of
                       Some v \<Rightarrow> if truthy v then Some (''f/'' @ toStr numberToString v) else None
                     | None \<Rightarrow> None);
               is = ISO ex;
               sh = (case ExposureTime ex of
                       Some v \<Rightarrow> if truthy v then Some (toStr numberToString v @ ''s'') else None
                     | None \<Rightarrow> None);
               cam = (case (Make ex, Model ex) of
                        (Some mk, Some md) \<Rightarrow>
                          if mk \<noteq> [] \<and> md \<noteq> [] then Some (trim (trim mk @ '' '' @ trim md))
                          else Some md
                      | (_, Some md) \<Rightarrow> Some md
                      | (mk, None) \<Rightarrow> mk)
           in if \<not> truthyStr fl \<and> \<not> truthyStr ap \<and> \<not> truthyVal is \<and> \<not> truthyStr sh
                 \<and> \<not> truthyStr cam
              then None
              else Some \<lparr>focalLength = fl, aperture = ap, iso = is, shutterSpeed = sh,
                         camera = cam\<rparr>))"

definition getPhotoDimensions :: "PhotoManifestItem \<Rightarrow> jsnumber \<times> jsnumber" where
  "getPhotoDimensions photo =
     (if truthy (JNumber (item_width photo)) then item_width photo else Finite 1,
      if truthy (JNumber (item_height photo)) then item_height photo else Finite 1)"

section \<open>The world outside the plugin\<close>

text \<open>
  Every effect of the plugin goes through a port. Its outcome at the time of one hook call
  is a field of \<open>World\<close>; a call that rejects or throws is the value \<open>None\<close>
  (\<open>False\<close> for an upload). The hook records the calls it makes, in order, as events;
  the event of a render, an upload or a URL lookup carries the outcome of the call.
  The file system has two ports: \<open>isFile p\<close> says that \<open>stat(p)\<close> resolves to a
  regular file, \<open>readFile p\<close> is what \<open>readFile(p)\<close> resolves to, and \<open>None\<close> when
  it rejects. Neither port determines the other: a file that \<open>stat\<close> finds may not be
  readable.

  A \<open>Buffer\<close> is a list of bytes; a natural number stands for the byte it is modulo 256.

  An error that the plugin does not catch makes the promise of the hook reject. The only
  call to a port that the plugin makes outside a \<open>try\<close> or a \<open>catch\<close> is the
  \<open>readFile\<close> of a font file; \<open>ReadError p\<close> is the error of \<open>readFile(p)\<close>, and
  \<open>Rejected e\<close> is the event that ends a call whose promise rejects with \<open>e\<close>.
\<close>

type_synonym Buffer = "nat list"

datatype error = ReadError string

datatype LogLevel = LInfo | LWarn | LError | LDebug

datatype event =
    LogMsg LogLevel string
  | Stat string
  | ReadFile string
  | ReadSiteConfig string
  | Fetch string
  | RenderOgImage bool
  | UploadFile string bool
  | GeneratePublicUrl string "string option"
  | Rejected error

datatype FetchResult =
    FetchRejected
  | FetchResponse bool "Buffer option" "string option"

text \<open>
  \<open>FetchResponse ok body header\<close>: \<open>response.ok\<close>, the bytes of
  \<open>response.arrayBuffer()\<close> (\<open>None\<close> when reading the body rejects) and the
  \<open>content-type\<close> header.
\<close>

record Font =
  font_name :: string
  font_data :: Buffer
  font_style :: string
  font_weight :: nat

record SiteMeta =
  siteName :: string
  accentColor :: "string option"

record SiteConfigJson =
  cfg_name :: "string option"
  cfg_title :: "string option"
  cfg_accentColor :: "string option"

record RenderInput =
  photoTitle :: string
  tpl_siteName :: string
  tpl_tags :: "string list"
  formattedDate :: "string option"
  exifInfo :: "ExifInfo option"
  thumbnailSrc :: "string option"
  photoDimensions :: "jsnumber \<times> jsnumber"
  tpl_accentColor :: string
  tpl_fonts :: "Font list"

text \<open>
  The \<open>photo\<close> element of \<open>OgTemplate\<close> (og.template.tsx, lines 58-68): the frame of
  the photo, fitted to the box of the layout, with the thumbnail as its source. The
  renderer that the plugin calls (og.renderer.tsx) applies \<open>OgTemplate\<close> to the template
  it is given; the module it imports it from is not among the sources, and the template of
  the sources is taken for it.
\<close>

definition OgTemplate_photo :: "RenderInput \<Rightarrow> FrameElement" where
  "OgTemplate_photo props =
     (let aspect = photoAspect (photoDimensions props);
          layout = determineLayout aspect;
          photoSize = fitWithinBox aspect (photoBox layout)
      in PhotoFrame (width photoSize) (height photoSize) (photoFit layout) (thumbnailSrc props))"

record StorageManager =
  uploadFile :: "string \<Rightarrow> Buffer \<Rightarrow> string \<Rightarrow> bool"
  generatePublicUrl :: "string \<Rightarrow> string option"

datatype StorageRef = BuilderStorage | ExternalStorage

record World =
  isFile :: "string \<Rightarrow> bool"
  readFile :: "string \<Rightarrow> Buffer option"
  fetch :: "string \<Rightarrow> FetchResult"
  readSiteConfig :: "string \<Rightarrow> string + SiteConfigJson"
  formatLocaleDate :: "string \<Rightarrow> string option"
  renderOgImage :: "RenderInput \<Rightarrow> Buffer option"
  storage :: "StorageRef \<Rightarrow> StorageManager"
  numberToString :: "jsnumber \<Rightarrow> string"
  pathJoin :: "string list \<Rightarrow> string"
  pathResolve :: "string \<Rightarrow> string \<Rightarrow> string"
  cwd :: string
  workdir :: string
  repoRoot :: string

text \<open>
  \<open>readSiteConfig\<close> is \<open>readFile\<close> followed by \<open>JSON.parse\<close>, and is the message
  of the error when one of the two throws; \<open>formatLocaleDate\<close> is \<open>Date.parse\<close>
  followed by \<open>toLocaleDateString\<close> and is \<open>None\<close> when the time stamp is \<open>NaN\<close>;
  \<open>storage\<close> is how each storage manager answers.
\<close>

section \<open>Thumbnail and font sources\<close>

definition toLowerChar :: "char \<Rightarrow> char" where
  "toLowerChar c =
     (case map_of (zip ''ABCDEFGHIJKLMNOPQRSTUVWXYZ'' ''abcdefghijklmnopqrstuvwxyz'') c of
        Some l \<Rightarrow> l
      | None \<Rightarrow> c)"

definition toLowerCase :: "string \<Rightarrow> string" where
  "toLowerCase s = map toLowerChar s"

definition endsWith :: "string \<Rightarrow> string \<Rightarrow> bool" where
  "endsWith s suffix = (take (length suffix) (rev s) = rev suffix)"

text \<open>
  \<open>buffer.toString('base64')\<close>: three bytes give four digits of six bits each; one or
  two bytes left at the end give two or three digits and are padded with \<open>=\<close>.
\<close>

definition base64Digit :: "nat \<Rightarrow> char" where
  "base64Digit n =
     ''ABCDEFGHIJKLMNOPQRSTUVWXYZabcdefghijklmnopqrstuvwxyz0123456789+/'' ! (n mod 64)"

fun base64 :: "Buffer \<Rightarrow> string" where
  "base64 [] = []"
| "base64 [a] =
     [base64Digit ((a mod 256) div 4), base64Digit ((a mod 4) * 16), CHR ''='', CHR ''='']"
| "base64 [a, b] =
     [base64Digit ((a mod 256) div 4), base64Digit ((a mod 4) * 16 + (b mod 256) div 16),
      base64Digit ((b mod 16) * 4), CHR ''='']"
| "base64 (a # b # c # rest) =
     [base64Digit ((a mod 256) div 4), base64Digit ((a mod 4) * 16 + (b mod 256) div 16),
      base64Digit ((b mod 16) * 4 + (c mod 256) div 64), base64Digit (c mod 64)]
     @ base64 rest"

definition bufferToDataUrl :: "Buffer \<Rightarrow> string \<Rightarrow> string" where
  "bufferToDataUrl bytes ctype = ''data:'' @ ctype @ '';base64,'' @ base64 bytes"

definition guessContentType :: "string \<Rightarrow> string" where
  "guessContentType url =
     (let lowered = toLowerCase url in
      if endsWith lowered ''.png'' then ''image/png''
      else if endsWith lowered ''.webp'' then ''image/webp''
      else ''image/jpeg'')"

text \<open>The test \<open>/^https?:\/\//i\<close>.\<close>

definition isHttpUrl :: "string \<Rightarrow> bool" where
  "isHttpUrl url =
     (toLowerCase (take 7 url) = ''http://'' \<or> toLowerCase (take 8 url) = ''https://'')"

text \<open>
  Modelled from the spec: the thumbnail-data port, which exposes optional in-memory bytes or
  a URL (spec section 6); its declaration (\<open>thumbnail-storage/shared.ts\<close>) is not among
  the sources.
\<close>

record ThumbnailPluginData =
  buffer :: "Buffer option"
  localUrl :: "string option"

text \<open>Lines 211-221 of \<open>resolveThumbnailDataUrl\<close>: the remote attempt.\<close>

definition fetchThumbnail :: "World \<Rightarrow> string \<Rightarrow> string \<Rightarrow> string option \<times> event list" where
  "fetchThumbnail w url ctype =
     (case fetch w url of
        FetchRejected \<Rightarrow>
          (None, [Fetch url,
                  LogMsg LWarn (''OG image plugin: failed to fetch remote thumbnail '' @ url)])
      | FetchResponse ok body header \<Rightarrow>
          if ok then
            (case body of
               None \<Rightarrow>
                 (None, [Fetch url,
                   LogMsg LWarn (''OG image plugin: failed to fetch remote thumbnail '' @ url)])
             | Some bytes \<Rightarrow>
                 (Some (bufferToDataUrl bytes
                          (case header of Some h \<Rightarrow> h | None \<Rightarrow> ctype)),
                  [Fetch url]))
          else (None, [Fetch url]))"

text \<open>Line 206: \<open>pluginData?.localUrl || item.thumbnailUrl\<close>.\<close>

definition chosenUrl :: "PhotoManifestItem \<Rightarrow> ThumbnailPluginData option \<Rightarrow> string option" where
  "chosenUrl item pluginData =
     (let local = (case pluginData of Some d \<Rightarrow> localUrl d | None \<Rightarrow> None)
      in if truthyStr local then local else thumbnailUrl item)"

text \<open>Lines 223-224: the path under the public root.\<close>

definition localThumbnailPath :: "World \<Rightarrow> string \<Rightarrow> string" where
  "localThumbnailPath w url =
     pathJoin w [workdir w, ''public'', dropWhile (\<lambda>c. c = CHR ''/'') url]"

definition resolveThumbnailDataUrl ::
  "World \<Rightarrow> PhotoManifestItem \<Rightarrow> ThumbnailPluginData option \<Rightarrow> string option \<times> event list" where
  "resolveThumbnailDataUrl w item pluginData =
     (case (case pluginData of Some d \<Rightarrow> buffer d | None \<Rightarrow> None) of
        Some b \<Rightarrow> (Some (bufferToDataUrl b ''image/jpeg''), [])
      | None \<Rightarrow>
          (case chosenUrl item pluginData of
             None \<Rightarrow> (None, [])
           | Some thumbUrl \<Rightarrow>
               if thumbUrl = [] then (None, [])
               else
                 (let ctype = guessContentType thumbUrl;
                      remote = (if isHttpUrl thumbUrl then fetchThumbnail w thumbUrl ctype
                                else (None, []))
                  in case fst remote of
                       Some dataUrl \<Rightarrow> (Some dataUrl, snd remote)
                     | None \<Rightarrow>
                         (let localPath = localThumbnailPath w thumbUrl
                          in case readFile w localPath of
                               Some localBuffer \<Rightarrow>
                                 (Some (bufferToDataUrl localBuffer ctype),
                                  snd remote @ [ReadFile localPath])
                             | None \<Rightarrow>
                                 (None,
                                  snd remote @ [ReadFile localPath,
                                    LogMsg LDebug
                                      (''OG image plugin: could not read local thumbnail ''
                                         @ localPath)])))))"

definition formatDate :: "World \<Rightarrow> string option \<Rightarrow> string option" where
  "formatDate w input =
     (case input of
        None \<Rightarrow> None
      | Some text \<Rightarrow> if text = [] then None else formatLocaleDate w text)"

text \<open>
  The loop of \<open>loadFontFile\<close> over its candidate paths (lines 118-123). A failing
  \<open>stat\<close> is caught and the next candidate is tried; the first candidate that is a regular
  file is read, and that read is not guarded: when it rejects, so does \<open>loadFontFile\<close>.
\<close>

fun firstFile :: "World \<Rightarrow> string list \<Rightarrow> (error + Buffer option) \<times> event list" where
  "firstFile w [] = (Inr None, [])"
| "firstFile w (candidate # rest) =
     (if isFile w candidate then
        (case readFile w candidate of
           Some bytes \<Rightarrow> (Inr (Some bytes), [Stat candidate, ReadFile candidate])
         | None \<Rightarrow> (Inl (ReadError candidate), [Stat candidate, ReadFile candidate]))
      else (fst (firstFile w rest), Stat candidate # snd (firstFile w rest)))"

definition ogAssetsDir :: "World \<Rightarrow> string" where
  "ogAssetsDir w = pathJoin w [repoRoot w, ''be/apps/core/src/modules/content/og/assets'']"

definition fontCandidates :: "World \<Rightarrow> string \<Rightarrow> string list" where
  "fontCandidates w fileName =
     [pathJoin w [ogAssetsDir w, fileName],
      pathJoin w [repoRoot w, ''apps/core/src/modules/content/og/assets'', fileName],
      pathJoin w [repoRoot w, ''core/src/modules/content/og/assets'', fileName]]"

definition loadFontFile :: "World \<Rightarrow> string \<Rightarrow> (error + Buffer option) \<times> event list" where
  "loadFontFile w fileName = firstFile w (fontCandidates w fileName)"

definition fontsNotFoundWarning :: event where
  "fontsNotFoundWarning =
     LogMsg LWarn ''OG image plugin: fonts not found, skip rendering for this run.''"

text \<open>
  \<open>loadFonts\<close>, lines 131-154: the second file is looked for also when the first is
  missing; an error of either load passes through.
\<close>

definition loadFonts :: "World \<Rightarrow> (error + Font list option) \<times> event list" where
  "loadFonts w =
     (let geist = loadFontFile w ''Geist-Medium.ttf'' in
      case fst geist of
        Inl e \<Rightarrow> (Inl e, snd geist)
      | Inr g \<Rightarrow>
          (let harmony = loadFontFile w ''HarmonyOS_Sans_SC_Medium.ttf'' in
           case fst harmony of
             Inl e \<Rightarrow> (Inl e, snd geist @ snd harmony)
           | Inr h \<Rightarrow>
               (case (g, h) of
                  (Some gb, Some hb) \<Rightarrow>
                    (Inr (Some [\<lparr>font_name = ''Geist'', font_data = gb, font_style = ''normal'',
                                  font_weight = 400\<rparr>,
                                 \<lparr>font_name = ''HarmonyOS Sans SC'', font_data = hb,
                                  font_style = ''normal'', font_weight = 400\<rparr>]),
                     snd geist @ snd harmony)
                | _ \<Rightarrow> (Inr None, snd geist @ snd harmony @ [fontsNotFoundWarning]))))"

section \<open>Run state and the hook after each photo\<close>

record PluginRunState =
  uploaded :: "string set"
  urlCache :: "string \<rightharpoonup> string"
  fonts :: "Font list option"
  siteMeta :: "SiteMeta option"

text \<open>
  Of the plugin options only those that \<open>loadSiteMeta\<close> reads are kept; of the resolved
  configuration, those that the hook reads.
\<close>

record OgImagePluginOptions =
  opt_siteName :: "string option"
  opt_accentColor :: "string option"
  opt_siteConfigPath :: "string option"

record ResolvedPluginConfig =
  directory :: string
  remotePrefix :: string
  contentType :: string
  useDefaultStorage :: bool
  enabled :: bool

text \<open>
  What the closure of \<open>ogImagePlugin\<close> holds when a hook runs: its options, the
  configuration that \<open>onInit\<close> resolved (if it ran) and the storage manager that
  \<open>onInit\<close> created for an overriding storage configuration (if any).
\<close>

record Plugin =
  pluginOptions :: OgImagePluginOptions
  resolved :: "ResolvedPluginConfig option"
  externalStorageManager :: "StorageRef option"

record BuildOptions =
  isForceMode :: bool
  isForceManifest :: bool

text \<open>
  The payload of the hook: \<open>payload.result.item\<close>, \<open>payload.result.type\<close>,
  \<open>payload.options\<close> and the thumbnail plugin's entry of
  \<open>payload.context.pluginData\<close>.
\<close>

record Payload =
  resultItem :: "PhotoManifestItem option"
  resultType :: string
  buildOptions :: BuildOptions
  thumbnailData :: "ThumbnailPluginData option"

definition DEFAULT_SITE_NAME :: string where
  "DEFAULT_SITE_NAME = ''Photo Gallery''"

definition DEFAULT_ACCENT_COLOR :: string where
  "DEFAULT_ACCENT_COLOR = ''#007bff''"

definition stripSlashes :: "string \<Rightarrow> string" where
  "stripSlashes v =
     rev (dropWhile (\<lambda>c. c = CHR ''/'') (rev (dropWhile (\<lambda>c. c = CHR ''/'') v)))"

fun joinWith :: "string \<Rightarrow> string list \<Rightarrow> string" where
  "joinWith sep [] = []"
| "joinWith sep [x] = x"
| "joinWith sep (x # y # ys) = x @ sep @ joinWith sep (y # ys)"

definition joinSegments :: "string option list \<Rightarrow> string" where
  "joinSegments segments =
     joinWith ''/''
       (filter (\<lambda>segment. segment \<noteq> [])
          (map (\<lambda>segment.
                  stripSlashes
                    (map (\<lambda>c. if c = CHR 0x5C then CHR ''/'' else c)
                       (case segment of None \<Rightarrow> [] | Some v \<Rightarrow> v)))
             segments))"

definition getOrCreateRunState :: "PluginRunState option \<Rightarrow> PluginRunState" where
  "getOrCreateRunState container =
     (case container of
        Some state \<Rightarrow> state
      | None \<Rightarrow> \<lparr>uploaded = {}, urlCache = Map.empty, fonts = None, siteMeta = None\<rparr>)"

text \<open>\<open>value?.trim() || fallback\<close>.\<close>

definition trimOr :: "string option \<Rightarrow> string \<Rightarrow> string" where
  "trimOr v fallback =
     (case v of None \<Rightarrow> fallback | Some t \<Rightarrow> if trim t = [] then fallback else trim t)"

definition loadSiteMeta :: "OgImagePluginOptions \<Rightarrow> World \<Rightarrow> SiteMeta \<times> event list" where
  "loadSiteMeta opts w =
     (let fallbackName = trimOr (opt_siteName opts) DEFAULT_SITE_NAME;
          fallbackAccent = trimOr (opt_accentColor opts) DEFAULT_ACCENT_COLOR;
          siteConfigPath =
            (case opt_siteConfigPath opts of
               None \<Rightarrow> pathResolve w (cwd w) ''config.json''
             | Some path \<Rightarrow>
                 if path = [] then pathResolve w (cwd w) ''config.json''
                 else pathResolve w (cwd w) path)
      in case readSiteConfig w siteConfigPath of
           Inr parsed \<Rightarrow>
             (\<lparr>siteName = trimOr (cfg_name parsed) (trimOr (cfg_title parsed) fallbackName),
               accentColor = Some (trimOr (cfg_accentColor parsed) fallbackAccent)\<rparr>,
              [ReadSiteConfig siteConfigPath])
         | Inl message \<Rightarrow>
             (\<lparr>siteName = fallbackName, accentColor = Some fallbackAccent\<rparr>,
              [ReadSiteConfig siteConfigPath,
               LogMsg LInfo (''OG image plugin: using fallback site meta ('' @ siteConfigPath
                              @ '' not readable: '' @ message @ '').'')]))"

text \<open>Lines 388-397: the item was skipped, only its public URL is looked up.\<close>

definition resolveExisting ::
  "StorageManager \<Rightarrow> PluginRunState \<Rightarrow> PhotoManifestItem \<Rightarrow> string
     \<Rightarrow> PluginRunState \<times> PhotoManifestItem \<times> event list" where
  "resolveExisting sm state item remoteKey =
     (case generatePublicUrl sm remoteKey of
        Some remoteUrl \<Rightarrow>
          (state\<lparr>urlCache := (urlCache state)(remoteKey \<mapsto> remoteUrl)\<rparr>,
           item\<lparr>ogImageUrl := Some remoteUrl\<rparr>,
           [GeneratePublicUrl remoteKey (Some remoteUrl)])
      | None \<Rightarrow>
          (state, item,
           [GeneratePublicUrl remoteKey None,
            LogMsg LInfo (''OG image plugin: skipped rendering and could not resolve URL for ''
                           @ remoteKey @ ''.'')]))"

text \<open>
  Lines 436-447: the URL from the cache when it holds a non-empty one, else from the
  storage manager.
\<close>

definition resolveUrl ::
  "StorageManager \<Rightarrow> PluginRunState \<Rightarrow> PhotoManifestItem \<Rightarrow> string
     \<Rightarrow> PluginRunState \<times> PhotoManifestItem \<times> event list" where
  "resolveUrl sm state item remoteKey =
     (if truthyStr (urlCache state remoteKey) then
        (state, item\<lparr>ogImageUrl := urlCache state remoteKey\<rparr>, [])
      else
        (case generatePublicUrl sm remoteKey of
           Some remoteUrl \<Rightarrow>
             (state\<lparr>urlCache := (urlCache state)(remoteKey \<mapsto> remoteUrl)\<rparr>,
              item\<lparr>ogImageUrl := Some remoteUrl\<rparr>,
              [GeneratePublicUrl remoteKey (Some remoteUrl)])
         | None \<Rightarrow>
             (state, item,
              [GeneratePublicUrl remoteKey None,
               LogMsg LError (''OG image plugin: failed to generate URL for '' @ remoteKey)])))"

text \<open>Lines 419-447: upload unless the key was uploaded in this run and nothing forces it.\<close>

definition publish ::
  "ResolvedPluginConfig \<Rightarrow> StorageManager \<Rightarrow> BuildOptions \<Rightarrow> PluginRunState
     \<Rightarrow> PhotoManifestItem \<Rightarrow> string \<Rightarrow> Buffer
     \<Rightarrow> PluginRunState \<times> PhotoManifestItem \<times> event list" where
  "publish r sm opts state item remoteKey png =
     (if remoteKey \<notin> uploaded state \<or> isForceMode opts \<or> isForceManifest opts then
        (if uploadFile sm remoteKey png (contentType r) then
           (case resolveUrl sm (state\<lparr>uploaded := insert remoteKey (uploaded state)\<rparr>) item
                   remoteKey of
              (state', item', events) \<Rightarrow> (state', item', UploadFile remoteKey True # events))
         else
           (state, item,
            [UploadFile remoteKey False,
             LogMsg LError (''OG image plugin: failed to upload '' @ remoteKey)]))
      else resolveUrl sm state item remoteKey)"

text \<open>Lines 406-416: the template that is rendered.\<close>

definition templateOf ::
  "World \<Rightarrow> SiteMeta \<Rightarrow> Font list \<Rightarrow> PhotoManifestItem \<Rightarrow> string option \<Rightarrow> RenderInput" where
  "templateOf w meta fnts item thumbSrc =
     \<lparr>photoTitle =
        (case title item of
           Some t \<Rightarrow> if t \<noteq> [] then t
                     else if item_id item \<noteq> [] then item_id item else ''Untitled Photo''
         | None \<Rightarrow> if item_id item \<noteq> [] then item_id item else ''Untitled Photo''),
      tpl_siteName = (if siteName meta \<noteq> [] then siteName meta else DEFAULT_SITE_NAME),
      tpl_tags = take 3 (case tags item of Some ts \<Rightarrow> ts | None \<Rightarrow> []),
      formattedDate =
        formatDate w
          (case exif item of
             None \<Rightarrow> lastModified item
           | Some ex \<Rightarrow>
               (case DateTimeOriginal ex of Some d \<Rightarrow> Some d | None \<Rightarrow> lastModified item)),
      exifInfo = buildExifInfo (numberToString w) item,
      thumbnailSrc = thumbSrc,
      photoDimensions = getPhotoDimensions item,
      tpl_accentColor = (case accentColor meta of Some c \<Rightarrow> c | None \<Rightarrow> DEFAULT_ACCENT_COLOR),
      tpl_fonts = fnts\<rparr>"

text \<open>Lines 399-450: thumbnail, summary and date, then render and publish.\<close>

definition renderAndPublish ::
  "World \<Rightarrow> ResolvedPluginConfig \<Rightarrow> StorageManager \<Rightarrow> Payload \<Rightarrow> SiteMeta \<Rightarrow> Font list
     \<Rightarrow> PluginRunState \<Rightarrow> PhotoManifestItem \<Rightarrow> string
     \<Rightarrow> PluginRunState \<times> PhotoManifestItem \<times> event list" where
  "renderAndPublish w r sm payload meta fnts state item remoteKey =
     (let thumb = resolveThumbnailDataUrl w item (thumbnailData payload)
      in case renderOgImage w (templateOf w meta fnts item (fst thumb)) of
           None \<Rightarrow>
             (state, item,
              snd thumb @ [RenderOgImage False,
                LogMsg LError (''OG image plugin: failed to render OG image for ''
                                @ item_id item)])
         | Some png \<Rightarrow>
             (case publish r sm (buildOptions payload) state item remoteKey png of
                (state', item', events) \<Rightarrow>
                  (state', item', snd thumb @ RenderOgImage True # events)))"

text \<open>
  Lines 371-377: site data and fonts are loaded when the run state holds none. It returns
  the state, the site data now in it, the calls made, and the error of \<open>loadFonts\<close> if it
  threw one; the assignment to \<open>state.fonts\<close> is then not reached.
\<close>

definition ensureLoaded ::
  "Plugin \<Rightarrow> World \<Rightarrow> PluginRunState
     \<Rightarrow> PluginRunState \<times> SiteMeta \<times> event list \<times> error option" where
  "ensureLoaded pl w state0 =
     (let site = (case siteMeta state0 of
                    Some m \<Rightarrow> (m, [])
                  | None \<Rightarrow> loadSiteMeta (pluginOptions pl) w);
          state1 = state0\<lparr>siteMeta := Some (fst site)\<rparr>;
          loaded = (case fonts state1 of
                      Some f \<Rightarrow> (Inr (Some f), [])
                    | None \<Rightarrow> loadFonts w)
      in case fst loaded of
           Inr f \<Rightarrow> (state1\<lparr>fonts := f\<rparr>, fst site, snd site @ snd loaded, None)
         | Inl e \<Rightarrow> (state1, fst site, snd site @ snd loaded, Some e))"

text \<open>Line 384.\<close>

definition shouldRender :: "Payload \<Rightarrow> bool" where
  "shouldRender payload =
     (resultType payload \<noteq> ''skipped'' \<or> isForceMode (buildOptions payload)
      \<or> isForceManifest (buildOptions payload))"

text \<open>
  The hook \<open>afterPhotoProcess\<close>, lines 353-451. It returns the run-state slot of
  \<open>runShared\<close>, the item (with the URL written back, if it was) and the calls made. When
  \<open>loadFonts\<close> throws, the promise of the hook rejects: the slot and the item are as the
  call left them, and the last event is the rejection.
\<close>

definition afterPhotoProcess ::
  "Plugin \<Rightarrow> World \<Rightarrow> Payload \<Rightarrow> PluginRunState option
     \<Rightarrow> PluginRunState option \<times> PhotoManifestItem option \<times> event list" where
  "afterPhotoProcess pl w payload runShared =
     (case resolved pl of
        None \<Rightarrow> (runShared, resultItem payload, [])
      | Some r \<Rightarrow>
          if \<not> enabled r then (runShared, resultItem payload, [])
          else
            (case resultItem payload of
               None \<Rightarrow> (runShared, None, [])
             | Some item \<Rightarrow>
                 (case (if useDefaultStorage r then Some BuilderStorage
                        else externalStorageManager pl) of
                    None \<Rightarrow>
                      (runShared, Some item,
                       [LogMsg LWarn
                          ''OG image plugin could not resolve storage manager. Skipping upload.''])
                  | Some ref \<Rightarrow>
                      (let sm = storage w ref;
                           loaded = ensureLoaded pl w (getOrCreateRunState runShared);
                           state = fst loaded;
                           before = fst (snd (snd loaded))
                       in case snd (snd (snd loaded)) of
                            Some e \<Rightarrow> (Some state, Some item, before @ [Rejected e])
                          | None \<Rightarrow>
                              (case fonts state of
                                 None \<Rightarrow> (Some state, Some item, before)
                               | Some fnts \<Rightarrow>
                                   (let remoteKey =
                                          joinSegments
                                            [Some (remotePrefix r),
                                             Some (item_id item @ ''.png'')];
                                        result =
                                          (if \<not> shouldRender payload
                                           then resolveExisting sm state item remoteKey
                                           else renderAndPublish w r sm payload
                                                  (fst (snd loaded)) fnts state item remoteKey)
                                    in (Some (fst result), Some (fst (snd result)),
                                        before @ snd (snd result))))))))"

text \<open>
  Modelled from the spec: the batch driver is not part of the plugin. One run calls the hook
  for one item after the other, each call to completion before the next, all sharing one
  \<open>runShared\<close> container that is empty when the run starts (spec sections 3 and 5). The
  world may differ from call to call. What the driver does when a call rejects is not
  described; here the next call follows, and the rejection stays in the events of the run.
\<close>

fun run ::
  "Plugin \<Rightarrow> (World \<times> Payload) list \<Rightarrow> PluginRunState option
     \<Rightarrow> PluginRunState option \<times> PhotoManifestItem option list \<times> event list" where
  "run pl [] runShared = (runShared, [], [])"
| "run pl ((w, payload) # rest) runShared =
     (case afterPhotoProcess pl w payload runShared of
        (shared1, item', events) \<Rightarrow>
          (case run pl rest shared1 of
             (shared2, items, later) \<Rightarrow> (shared2, item' # items, events @ later)))"

section \<open>Vocabulary of the statements\<close>

text \<open>The four boxes that \<open>determineLayout\<close> can return.\<close>

definition layoutBoxes :: "PhotoBox list" where
  "layoutBoxes =
     [\<lparr>maxWidth = Finite 528, maxHeight = Finite 508\<rparr>,
      \<lparr>maxWidth = Finite 600, maxHeight = Finite 508\<rparr>,
      \<lparr>maxWidth = Finite 1100, maxHeight = Finite 340\<rparr>,
      \<lparr>maxWidth = Finite 1092, maxHeight = Finite 410\<rparr>]"

text \<open>
  What the quotient of two positive doubles can be: \<open>Infinity\<close>, or a real that is not
  negative, is below \<open>2^1024\<close> and is a multiple of \<open>2^-1074\<close>, the spacing of the
  smallest doubles.
\<close>

fun isAspect :: "jsnumber \<Rightarrow> bool" where
  "isAspect (Finite x) =
     (0 \<le> x \<and> x < pow2 1024 \<and> of_int \<lfloor>x / pow2 (- 1074)\<rfloor> * pow2 (- 1074) = x)"
| "isAspect PosInfinity = True"
| "isAspect _ = False"

definition hasNoBuffer :: "ThumbnailPluginData option \<Rightarrow> bool" where
  "hasNoBuffer pluginData = (case pluginData of None \<Rightarrow> True | Some d \<Rightarrow> buffer d = None)"

text \<open>A fetch fails when it rejects, answers with a status that is not ok, or its body cannot
  be read.\<close>

definition fetchFails :: "FetchResult \<Rightarrow> bool" where
  "fetchFails r =
     (case r of FetchRejected \<Rightarrow> True | FetchResponse ok body header \<Rightarrow> \<not> ok \<or> body = None)"

definition uploadedOf :: "PluginRunState option \<Rightarrow> string set" where
  "uploadedOf runShared = uploaded (getOrCreateRunState runShared)"

definition urlCacheOf :: "PluginRunState option \<Rightarrow> string \<rightharpoonup> string" where
  "urlCacheOf runShared = urlCache (getOrCreateRunState runShared)"

definition fontsOf :: "PluginRunState option \<Rightarrow> Font list option" where
  "fontsOf runShared = fonts (getOrCreateRunState runShared)"

definition remoteKeyOf :: "ResolvedPluginConfig \<Rightarrow> PhotoManifestItem \<Rightarrow> string" where
  "remoteKeyOf r item = joinSegments [Some (remotePrefix r), Some (item_id item @ ''.png'')]"

text \<open>One of the two font files is found at none of its candidate paths.\<close>

definition fontsMissing :: "World \<Rightarrow> bool" where
  "fontsMissing w =
     ((\<forall>c \<in> set (fontCandidates w ''Geist-Medium.ttf''). \<not> isFile w c)
      \<or> (\<forall>c \<in> set (fontCandidates w ''HarmonyOS_Sans_SC_Medium.ttf''). \<not> isFile w c))"

text \<open>Every font file that is found at a candidate path can be read.\<close>

definition fontsReadable :: "World \<Rightarrow> bool" where
  "fontsReadable w =
     (\<forall>c \<in> set (fontCandidates w ''Geist-Medium.ttf''
                   @ fontCandidates w ''HarmonyOS_Sans_SC_Medium.ttf'').
        isFile w c \<longrightarrow> readFile w c \<noteq> None)"

text \<open>
  The uploads, renders, URL lookups, \<open>stat\<close> calls and rejections among the events, in
  order and with their outcomes, and the number of warnings about missing fonts.
\<close>

fun uploadsIn :: "event list \<Rightarrow> (string \<times> bool) list" where
  "uploadsIn [] = []"
| "uploadsIn (UploadFile k ok # es) = (k, ok) # uploadsIn es"
| "uploadsIn (e # es) = uploadsIn es"

fun rendersIn :: "event list \<Rightarrow> bool list" where
  "rendersIn [] = []"
| "rendersIn (RenderOgImage ok # es) = ok # rendersIn es"
| "rendersIn (e # es) = rendersIn es"

fun lookupsIn :: "event list \<Rightarrow> (string \<times> string option) list" where
  "lookupsIn [] = []"
| "lookupsIn (GeneratePublicUrl k u # es) = (k, u) # lookupsIn es"
| "lookupsIn (e # es) = lookupsIn es"

fun statsIn :: "event list \<Rightarrow> string list" where
  "statsIn [] = []"
| "statsIn (Stat path # es) = path # statsIn es"
| "statsIn (e # es) = statsIn es"

fun rejectionsIn :: "event list \<Rightarrow> error list" where
  "rejectionsIn [] = []"
| "rejectionsIn (Rejected e # es) = e # rejectionsIn es"
| "rejectionsIn (e # es) = rejectionsIn es"

definition fontWarningsIn :: "event list \<Rightarrow> nat" where
  "fontWarningsIn es = length (filter (\<lambda>e. e = fontsNotFoundWarning) es)"

text \<open>
  The hook gets as far as the run state: the plugin is enabled, the payload has an item and
  a storage manager is there.
\<close>

definition storageOf :: "Plugin \<Rightarrow> Payload \<Rightarrow> StorageRef option" where
  "storageOf pl payload =
     (case resolved pl of
        None \<Rightarrow> None
      | Some r \<Rightarrow>
          if enabled r \<and> resultItem payload \<noteq> None
          then (if useDefaultStorage r then Some BuilderStorage else externalStorageManager pl)
          else None)"

text \<open>The test of line 420: the key is not yet uploaded in this run, or a flag forces.\<close>

definition mustUpload :: "BuildOptions \<Rightarrow> PluginRunState \<Rightarrow> string \<Rightarrow> bool" where
  "mustUpload opts st k = (k \<notin> uploaded st \<or> isForceMode opts \<or> isForceManifest opts)"

text \<open>
  A world for the examples: its files are those of a map from paths to contents, each of
  them readable; it renders every input, and its other ports fail.
\<close>

definition exampleWorld :: "(string \<Rightarrow> Buffer option) \<Rightarrow> StorageManager \<Rightarrow> World" where
  "exampleWorld fs sm =
     \<lparr>isFile = (\<lambda>path. fs path \<noteq> None), readFile = fs, fetch = (\<lambda>url. FetchRejected),
      readSiteConfig = (\<lambda>path. Inl ''ENOENT''),
      formatLocaleDate = (\<lambda>text. None), renderOgImage = (\<lambda>input. Some [137, 80, 78, 71]),
      storage = (\<lambda>ref. sm), numberToString = (\<lambda>n. ''0''),
      pathJoin = joinWith ''/'', pathResolve = (\<lambda>base path. base @ ''/'' @ path),
      cwd = ''/repo'', workdir = ''/repo'', repoRoot = ''/repo''\<rparr>"

definition exampleStorage :: "bool \<Rightarrow> bool \<Rightarrow> StorageManager" where
  "exampleStorage uploads lookups =
     \<lparr>uploadFile = (\<lambda>key bytes ctype. uploads),
      generatePublicUrl = (\<lambda>key. if lookups then Some (''https://cdn.example/'' @ key) else None)\<rparr>"

definition examplePlugin :: Plugin where
  "examplePlugin =
     \<lparr>pluginOptions = \<lparr>opt_siteName = None, opt_accentColor = None, opt_siteConfigPath = None\<rparr>,
      resolved = Some \<lparr>directory = ''.afilmory/og-images'', remotePrefix = ''og'',
                        contentType = ''image/png'', useDefaultStorage = True, enabled = True\<rparr>,
      externalStorageManager = None\<rparr>"

definition exampleItem :: "string \<Rightarrow> PhotoManifestItem" where
  "exampleItem name =
     \<lparr>item_id = name, title = None, tags = None, item_width = Finite 3, item_height = Finite 2,
      exif = None, lastModified = None, thumbnailUrl = None, ogImageUrl = None\<rparr>"

definition examplePayload :: "string \<Rightarrow> string \<Rightarrow> bool \<Rightarrow> Payload" where
  "examplePayload name type force =
     \<lparr>resultItem = Some (exampleItem name), resultType = type,
      buildOptions = \<lparr>isForceMode = force, isForceManifest = False\<rparr>, thumbnailData = None\<rparr>"

definition exampleFonts :: "Font list" where
  "exampleFonts =
     [\<lparr>font_name = ''Geist'', font_data = [0], font_style = ''normal'', font_weight = 400\<rparr>,
      \<lparr>font_name = ''HarmonyOS Sans SC'', font_data = [1], font_style = ''normal'',
       font_weight = 400\<rparr>]"

text \<open>A run state in which fonts and site data are loaded.\<close>

definition exampleState :: "string set \<Rightarrow> PluginRunState" where
  "exampleState keys =
     \<lparr>uploaded = keys, urlCache = Map.empty, fonts = Some exampleFonts,
      siteMeta = Some \<lparr>siteName = ''Photo Gallery'', accentColor = Some ''#007bff''\<rparr>\<rparr>"

section \<open>Properties of the number model\<close>

lemmas fl_defs = roundDouble_def roundPos_def exponentOf_def ilog2.simps pow2_def
  roundHalfEven_def Let_def fdiv_def fmul_def fsub_def isZero_def withSign_def lessNum_def leNum_def

lemma pow2_powi: "pow2 e = 2 powi e"
  by (simp add: pow2_def power_int_def power_divide)

lemma pow2_pos [simp]: "0 < pow2 e"
  by (simp add: pow2_powi)

lemma pow2_nonneg [simp]: "0 \<le> pow2 e"
  by (simp add: pow2_powi)

lemma pow2_neq0 [simp]: "pow2 e \<noteq> 0"
  using pow2_pos [of e] by linarith

lemma pow2_add: "pow2 (a + b) = pow2 a * pow2 b"
  by (simp add: pow2_powi power_int_add)

lemma pow2_mono: "a \<le> b \<Longrightarrow> pow2 a \<le> pow2 b"
  by (simp add: pow2_powi power_int_increasing)

lemma pow2_nat: "0 \<le> e \<Longrightarrow> pow2 e = 2 ^ nat e"
  by (simp add: pow2_def)

lemma ilog2_bounds:
  "1 \<le> n \<Longrightarrow> 0 \<le> ilog2 n \<and> 2 ^ nat (ilog2 n) \<le> n \<and> n < 2 ^ (nat (ilog2 n) + 1)"
proof (induction n rule: ilog2.induct)
  case (1 n)
  show ?case
  proof (cases "n \<le> 1")
    case True
    with "1.prems" have "n = 1" by simp
    then show ?thesis by (simp add: ilog2.simps)
  next
    case False
    then have h: "1 \<le> n div 2" by simp
    from "1.IH" [OF False h]
    have ih: "0 \<le> ilog2 (n div 2)" "2 ^ nat (ilog2 (n div 2)) \<le> n div 2"
      "n div 2 < 2 ^ (nat (ilog2 (n div 2)) + 1)" by simp_all
    have eq: "ilog2 n = 1 + ilog2 (n div 2)" using False by (simp add: ilog2.simps)
    have n1: "nat (ilog2 n) = Suc (nat (ilog2 (n div 2)))" using ih(1) eq by simp
    from ih(2) have "2 * 2 ^ nat (ilog2 (n div 2)) \<le> n" by linarith
    moreover from ih(3) have "n < 2 * 2 ^ (nat (ilog2 (n div 2)) + 1)" by linarith
    ultimately show ?thesis using ih(1) eq n1 by simp
  qed
qed

lemma exponentOf_bounds:
  assumes "0 < x"
  shows "pow2 (exponentOf x) \<le> x \<and> x < pow2 (exponentOf x + 1)"
proof (cases "1 \<le> x")
  case True
  let ?n = "\<lfloor>x\<rfloor>"
  from True have n: "1 \<le> ?n" by simp
  from ilog2_bounds [OF n] have k: "0 \<le> ilog2 ?n" "2 ^ nat (ilog2 ?n) \<le> ?n"
    "?n < 2 ^ (nat (ilog2 ?n) + 1)" by simp_all
  have e: "exponentOf x = ilog2 ?n" using True by (simp add: exponentOf_def)
  have "(2::real) ^ nat (ilog2 ?n) \<le> of_int ?n"
    using k(2) by (metis of_int_le_iff of_int_numeral of_int_power)
  also have "\<dots> \<le> x" by simp
  finally have lo: "pow2 (exponentOf x) \<le> x" using k(1) by (simp add: e pow2_nat)
  from k(3) have "?n + 1 \<le> 2 ^ (nat (ilog2 ?n) + 1)" by simp
  then have "of_int (?n + 1) \<le> (2::real) ^ (nat (ilog2 ?n) + 1)"
    by (metis of_int_le_iff of_int_numeral of_int_power)
  moreover have "x < of_int (?n + 1)" by linarith
  ultimately have "x < 2 ^ (nat (ilog2 ?n) + 1)" by linarith
  moreover have "pow2 (exponentOf x + 1) = 2 ^ (nat (ilog2 ?n) + 1)"
    using k(1) by (simp add: e pow2_def nat_add_distrib)
  ultimately show ?thesis using lo by simp
next
  case False
  let ?m = "\<lceil>1 / x\<rceil>"
  from False assms have inv: "1 < 1 / x" by simp
  then have m: "1 \<le> ?m - 1" by (simp add: less_ceiling_iff)
  let ?k = "ilog2 (?m - 1)"
  from ilog2_bounds [OF m] have k: "0 \<le> ?k" "2 ^ nat ?k \<le> ?m - 1" "?m - 1 < 2 ^ (nat ?k + 1)"
    by simp_all
  have e: "exponentOf x = - (?k + 1)" using False by (simp add: exponentOf_def)
  from k(3) have "?m \<le> 2 ^ (nat ?k + 1)" by simp
  then have "of_int ?m \<le> (2::real) ^ (nat ?k + 1)"
    by (metis of_int_le_iff of_int_numeral of_int_power)
  moreover have "1 / x \<le> of_int ?m" by simp
  ultimately have up: "1 / x \<le> 2 ^ (nat ?k + 1)" by linarith
  have "(2::real) ^ nat ?k \<le> of_int (?m - 1)"
    using k(2) by (metis of_int_le_iff of_int_numeral of_int_power)
  moreover have "of_int (?m - 1) < 1 / x" by linarith
  ultimately have dn: "2 ^ nat ?k < 1 / x" by linarith
  have p1: "pow2 (exponentOf x) = 1 / 2 ^ (nat ?k + 1)"
    using k(1) by (simp add: e pow2_def nat_add_distrib)
  have p2: "pow2 (exponentOf x + 1) = 1 / 2 ^ nat ?k"
    using k(1) by (cases "?k = 0") (simp_all add: e pow2_def)
  from up assms have "1 / 2 ^ (nat ?k + 1) \<le> x"
    by (simp add: field_simps)
  moreover from dn assms have "x < 1 / 2 ^ nat ?k"
    by (simp add: field_simps)
  ultimately show ?thesis by (simp add: p1 p2)
qed

lemma roundHalfEven_near: "\<bar>of_int (roundHalfEven q) - q\<bar> \<le> 1 / 2"
  unfolding roundHalfEven_def Let_def by (auto simp: abs_le_iff)

lemma roundHalfEven_le: "q \<le> of_int k \<Longrightarrow> roundHalfEven q \<le> k"
  unfolding roundHalfEven_def Let_def
  by (auto simp: floor_le_iff le_floor_iff)

lemma roundHalfEven_ge:
  assumes "of_int k \<le> q"
  shows "k \<le> roundHalfEven q"
proof -
  from assms have "k \<le> \<lfloor>q\<rfloor>" by (simp add: le_floor_iff)
  then show ?thesis unfolding roundHalfEven_def Let_def by auto
qed


lemma roundPos_cases:
  "roundPos x =
     (if pow2 1024 \<le> of_int (roundHalfEven (x / pow2 (max (exponentOf x) (- 1022) - 52)))
                        * pow2 (max (exponentOf x) (- 1022) - 52)
      then PosInfinity
      else Finite (of_int (roundHalfEven (x / pow2 (max (exponentOf x) (- 1022) - 52)))
                   * pow2 (max (exponentOf x) (- 1022) - 52)))"
  by (simp add: roundPos_def Let_def)

text \<open>Rounding does not step over an integer below 2^53.\<close>

lemma roundPos_le_int:
  assumes x: "0 < x" and le: "x \<le> of_int c" and c: "c < 2 ^ 53"
  shows "\<exists>y. roundPos x = Finite y \<and> 0 \<le> y \<and> y \<le> of_int c"
proof -
  let ?E = "max (exponentOf x) (- 1022)"
  let ?ulp = "pow2 (?E - 52)"
  let ?n = "roundHalfEven (x / ?ulp)"
  from exponentOf_bounds [OF x] have "pow2 (exponentOf x) \<le> x" by simp
  also have "x \<le> of_int c" by fact
  also have "of_int c < (2::real) ^ 53"
    using c by (metis of_int_less_iff of_int_numeral of_int_power)
  finally have "pow2 (exponentOf x) < pow2 53" by (simp add: pow2_def)
  then have "exponentOf x < 53"
    by (metis not_le pow2_mono leD)
  then have E: "?E - 52 \<le> 0" by simp
  define j where "j = nat (52 - ?E)"
  have ulp: "?ulp = 1 / 2 ^ j"
    using E by (cases "?E - 52 = 0") (simp_all add: pow2_def j_def)
  have "x / ?ulp \<le> of_int (c * 2 ^ j)"
    using le by (simp add: ulp)
  then have n: "?n \<le> c * 2 ^ j" by (rule roundHalfEven_le)
  have "0 \<le> x / ?ulp" using x by (intro divide_nonneg_pos) simp_all
  then have "of_int 0 \<le> x / ?ulp" by simp
  then have n0: "0 \<le> ?n" by (rule roundHalfEven_ge)
  from n have "of_int ?n \<le> (of_int (c * 2 ^ j) :: real)" by (simp only: of_int_le_iff)
  then have y: "of_int ?n * ?ulp \<le> of_int c"
    by (simp add: ulp field_simps)
  have y0: "0 \<le> of_int ?n * ?ulp" using n0 by simp
  have "of_int c < pow2 1024"
    using \<open>of_int c < (2::real) ^ 53\<close> by (simp add: pow2_def) 
  with y have "\<not> pow2 1024 \<le> of_int ?n * ?ulp" by linarith
  then have "roundPos x = Finite (of_int ?n * ?ulp)"
    by (simp add: roundPos_cases)
  with y y0 show ?thesis by blast
qed


text \<open>In the normal range the relative error is at most 2^-53.\<close>

lemma roundPos_error:
  assumes lo: "pow2 (- 1022) \<le> x" and fin: "roundPos x = Finite y"
  shows "\<bar>y - x\<bar> \<le> x / 2 ^ 53"
proof -
  have x: "0 < x" using lo pow2_pos [of "- 1022"] by linarith
  let ?e = "exponentOf x"
  from exponentOf_bounds [OF x] have b: "pow2 ?e \<le> x" "x < pow2 (?e + 1)" by simp_all
  have "pow2 (- 1022) < pow2 (?e + 1)" using lo b(2) by linarith
  then have "- 1022 < ?e + 1" by (metis not_le pow2_mono leD)
  then have E: "max ?e (- 1022) = ?e" by simp
  let ?ulp = "pow2 (?e - 52)"
  let ?n = "roundHalfEven (x / ?ulp)"
  from fin have y: "y = of_int ?n * ?ulp"
    by (simp add: roundPos_cases E split: if_splits)
  have "\<bar>of_int ?n - x / ?ulp\<bar> \<le> 1 / 2" by (rule roundHalfEven_near)
  then have "\<bar>of_int ?n - x / ?ulp\<bar> * ?ulp \<le> 1 / 2 * ?ulp"
    by (intro mult_right_mono) simp_all
  moreover have "\<bar>of_int ?n - x / ?ulp\<bar> * ?ulp = \<bar>of_int ?n * ?ulp - x\<bar>"
  proof -
    have "\<bar>of_int ?n - x / ?ulp\<bar> * ?ulp = \<bar>(of_int ?n - x / ?ulp) * ?ulp\<bar>"
      by (simp add: abs_mult)
    also have "(of_int ?n - x / ?ulp) * ?ulp = of_int ?n * ?ulp - x"
      by (simp add: field_simps)
    finally show ?thesis .
  qed
  ultimately have 1: "\<bar>y - x\<bar> \<le> ?ulp / 2" by (simp add: y)
  have "pow2 ?e = pow2 (?e - 52) * pow2 52"
    using pow2_add [of "?e - 52" 52] by simp
  then have "?ulp = pow2 ?e / 2 ^ 52" by (simp add: pow2_def)
  then have "?ulp / 2 = pow2 ?e / 2 ^ 53" by simp
  also have "\<dots> \<le> x / 2 ^ 53" using b(1) by (simp add: divide_right_mono)
  finally show ?thesis using 1 by linarith
qed

text \<open>A multiple of 2^-1074 below 2^-1022 is a subnormal double: it is not rounded.\<close>

lemma roundPos_subnormal:
  assumes x: "0 < x" and hi: "x < pow2 (- 1022)" and k: "x = of_int k * pow2 (- 1074)"
  shows "roundPos x = Finite x"
proof -
  let ?e = "exponentOf x"
  from exponentOf_bounds [OF x] have "pow2 ?e \<le> x" by simp
  with hi have "pow2 ?e < pow2 (- 1022)" by linarith
  then have "?e < - 1022" by (metis not_le pow2_mono leD)
  then have E: "max ?e (- 1022) - 52 = - 1074" by simp
  have q: "x / pow2 (- 1074) = of_int k" using k by simp
  have r: "roundHalfEven (of_int k) = k"
    by (simp add: roundHalfEven_def Let_def)
  have "pow2 (- 1022) \<le> pow2 1024" by (rule pow2_mono) simp
  with hi have "\<not> pow2 1024 \<le> x" by linarith
  then show ?thesis
    by (simp add: roundPos_cases E q r k [symmetric])
qed

text \<open>What rounding returns is a double: a multiple of 2^-1074 below 2^1024.\<close>

lemma roundPos_double:
  assumes x: "0 < x" and fin: "roundPos x = Finite y"
  shows "0 \<le> y \<and> y < pow2 1024 \<and> (\<exists>k. y = of_int k * pow2 (- 1074))"
proof -
  let ?E = "max (exponentOf x) (- 1022)"
  let ?ulp = "pow2 (?E - 52)"
  let ?n = "roundHalfEven (x / ?ulp)"
  from fin have y: "y = of_int ?n * ?ulp" and lt: "y < pow2 1024"
    by (simp_all add: roundPos_cases split: if_splits)
  have "0 \<le> x / ?ulp" using x by (intro divide_nonneg_pos) simp_all
  then have "of_int 0 \<le> x / ?ulp" by simp
  then have n0: "0 \<le> ?n" by (rule roundHalfEven_ge)
  have "0 \<le> ?E + 1022" by simp
  then have "?ulp = pow2 (?E + 1022) * pow2 (- 1074)"
    using pow2_add [of "?E + 1022" "- 1074"] by simp
  also have "pow2 (?E + 1022) = of_int (2 ^ nat (?E + 1022))"
    by (simp add: pow2_def)
  finally have "y = of_int (?n * 2 ^ nat (?E + 1022)) * pow2 (- 1074)"
    by (simp add: y)
  then show ?thesis using y n0 lt by (metis mult_nonneg_nonneg of_int_0_le_iff less_imp_le pow2_pos)
qed

text \<open>
  The operations at some inputs, with the results that a JavaScript engine gives: a tie goes
  to the even significand (\<open>2^53 + 1\<close> and \<open>2^53 + 3\<close>), \<open>0.1\<close> is not a double,
  \<open>0.1 * 3\<close> and \<open>0.3 - 0.1\<close> are rounded; a product overflows to \<open>Infinity\<close>; half of
  the smallest double is zero, and three halves of it are two of it.
\<close>

lemma rounding_examples:
  "roundDouble (2 ^ 53 + 1) = Finite (2 ^ 53)"
  "roundDouble (2 ^ 53 + 3) = Finite (2 ^ 53 + 4)"
  "lit 0.1 = Finite (3602879701896397 / 2 ^ 55)"
  "fdiv (Finite 1) (Finite 3) = Finite (6004799503160661 / 2 ^ 54)"
  "fmul (lit 0.1) (Finite 3) = Finite (1351079888211149 / 2 ^ 52)"
  "fsub (lit 0.3) (lit 0.1) = Finite (7205759403792793 / 2 ^ 55)"
  by (simp_all add: fl_defs lit_def)

lemma range_examples:
  "fmul (Finite (2 ^ 1023)) (Finite 2) = PosInfinity"
  "fdiv (Finite (pow2 (- 1074))) (Finite 2) = Finite 0"
  "fdiv (Finite (3 * pow2 (- 1074))) (Finite 2) = Finite (2 * pow2 (- 1074))"
  by (simp_all add: fl_defs)

text \<open>Zeros, infinities and \<open>NaN\<close>.\<close>

lemma special_value_examples:
  "fdiv (Finite 1) (Finite 0) = PosInfinity"
  "fdiv (Finite (- 1)) (Finite 0) = NegInfinity"
  "fdiv (Finite 1) NegZero = NegInfinity"
  "fdiv (Finite 0) (Finite 0) = NaN"
  "fdiv PosInfinity PosInfinity = NaN"
  "fdiv (Finite 1) NegInfinity = NegZero"
  "fdiv NaN (Finite 1) = NaN"
  "fmul (Finite 0) PosInfinity = NaN"
  "fmul (Finite (- 2)) PosInfinity = NegInfinity"
  "fmul NegZero (Finite 3) = NegZero"
  "fsub PosInfinity PosInfinity = NaN"
  "fsub (Finite 1) PosInfinity = NegInfinity"
  "fsub (Finite 5) (Finite 5) = Finite 0"
  "fsub NegZero (Finite 0) = NegZero"
  "lessNum NaN (Finite 1) = False"
  "leNum NegZero (Finite 0) = True"
  "lessNum (Finite 1) PosInfinity = True"
  by (simp_all add: fdiv_def fmul_def fsub_def isZero_def withSign_def lessNum_def leNum_def)

section \<open>Properties of the layout engine\<close>

lemmas eval_defs = roundDouble_def roundPos_def exponentOf_def ilog2.simps pow2_def
  roundHalfEven_def Let_def fdiv_def fmul_def fsub_def isZero_def withSign_def lessNum_def
  leNum_def lit_def

lemma lit_values:
  "lit 0.9 = Finite (8106479329266893 / 2 ^ 53)"
  "lit 1.1 = Finite (2476979795053773 / 2 ^ 51)"
  "lit 2.35 = Finite (5291729562160333 / 2 ^ 51)"
  "lit 0.82 = Finite (7385903388887613 / 2 ^ 53)"
  "lit 0.44 = Finite (7926335344172073 / 2 ^ 54)"
  "lit 0.5 = Finite (1 / 2)"
  by (simp_all add: eval_defs)

lemma ogAspect_value: "ogAspect = Finite (4302802191755251 / 2 ^ 51)"
  by (simp add: ogAspect_def CANVAS_width_def CANVAS_height_def eval_defs)

lemma box_values:
  "fmul CANVAS_width (lit 0.44) = Finite 528"
  "fmul CANVAS_width (lit 0.5) = Finite 600"
  "fsub CANVAS_height (fmul (Finite 60) (Finite 2)) = Finite 508"
  "fsub CANVAS_width (fmul (Finite 50) (Finite 2)) = Finite 1100"
  "fsub CANVAS_width (fmul (Finite 54) (Finite 2)) = Finite 1092"
  by (simp_all add: CANVAS_width_def CANVAS_height_def eval_defs)

lemma finalAspect_cases:
  obtains (clamped) "\<not> isFinite a \<or> leNum a (Finite 0)" "finalAspect a = Finite 1"
  | (kept) x where "a = Finite x" "0 < x" "finalAspect a = Finite x"
proof (cases a)
  case (Finite x)
  show ?thesis
  proof (cases "0 < x")
    case True
    with Finite have "finalAspect a = Finite x" by (simp add: finalAspect_def leNum_def)
    with Finite True show ?thesis by (rule kept)
  next
    case False
    with Finite have "leNum a (Finite 0)" by (simp add: leNum_def)
    then show ?thesis by (intro clamped) (simp_all add: finalAspect_def)
  qed
qed (auto simp: finalAspect_def leNum_def)

lemma aspect_values:
  "photoAspect (Finite 1600, Finite 900) = Finite (2001599834386887 / 2 ^ 50)"
  "photoAspect (Finite 1100, Finite 1000) = Finite (2476979795053773 / 2 ^ 51)"
  "photoAspect (Finite 984, Finite 628) = Finite (1764148898619653 / 2 ^ 50)"
  by (simp_all add: photoAspect_def eval_defs)

lemma stack_value:
  "fdiv (Finite (1764148898619653 / 2 ^ 50)) (fdiv (Finite 1200) (Finite 628))
     = Finite (3692951694443807 / 2 ^ 52)"
  "fdiv (Finite (2001599834386887 / 2 ^ 50)) (fdiv (Finite 1200) (Finite 628))
     = Finite (2095007826658275 / 2 ^ 51)"
  by (simp_all add: eval_defs)

text \<open>
  Claim C1. The category is decided by the clamped aspect alone, by the comparisons of the
  source on doubles: portrait below the literal 0.9, square from 0.9 to 1.1 with both ends
  included, wide from 2.35 on, landscape strictly between 1.1 and 2.35; the four conditions
  exclude each other and cover every input, so each input gets exactly one category. An
  aspect that is not finite or not positive is clamped to 1 and is square; any other aspect
  is left as it is. The doubles 0.9 and 1.1 are square and 2.35 is wide. In the landscape
  branch the arrangement is split when the aspect divided by 1200/628, both quotients
  rounded as the source computes them, is at most 0.82, and stack otherwise.
\<close>

theorem determineLayout_classification:
  "layoutType (determineLayout a) \<in> {Portrait, Square, Landscape, Wide}
   \<and> (layoutType (determineLayout a) = Portrait) = lessNum (finalAspect a) (lit 0.9)
   \<and> (layoutType (determineLayout a) = Square)
       = (leNum (lit 0.9) (finalAspect a) \<and> leNum (finalAspect a) (lit 1.1))
   \<and> (layoutType (determineLayout a) = Wide) = leNum (lit 2.35) (finalAspect a)
   \<and> (layoutType (determineLayout a) = Landscape)
       = (lessNum (lit 1.1) (finalAspect a) \<and> lessNum (finalAspect a) (lit 2.35))
   \<and> (\<not> isFinite a \<or> leNum a (Finite 0) \<longrightarrow>
        finalAspect a = Finite 1 \<and> layoutType (determineLayout a) = Square)
   \<and> (isFinite a \<and> lessNum (Finite 0) a \<longrightarrow> finalAspect a = a)
   \<and> layoutType (determineLayout (lit 0.9)) = Square
   \<and> layoutType (determineLayout (lit 1.1)) = Square
   \<and> layoutType (determineLayout (lit 2.35)) = Wide
   \<and> (layoutType (determineLayout a) = Landscape \<longrightarrow>
        arrangement (determineLayout a)
          = (if leNum (fdiv (finalAspect a) (fdiv (Finite 1200) (Finite 628))) (lit 0.82)
             then Split else Stack))"
proof -
  have og: "fdiv (Finite 1200) (Finite 628) = ogAspect"
    by (simp add: ogAspect_def CANVAS_width_def CANVAS_height_def)
  have points: "layoutType (determineLayout (lit 0.9)) = Square"
    "layoutType (determineLayout (lit 1.1)) = Square"
    "layoutType (determineLayout (lit 2.35)) = Wide"
    unfolding determineLayout_def finalAspect_def lit_values
    by (simp_all add: leNum_def lessNum_def Let_def)
  have kept: "isFinite a \<and> lessNum (Finite 0) a \<longrightarrow> finalAspect a = a"
    by (cases a) (auto simp: finalAspect_def leNum_def lessNum_def)
  show ?thesis
  proof (cases a rule: finalAspect_cases)
    case clamped
    then show ?thesis
      using points kept
      unfolding determineLayout_def lit_values og
      by (simp add: leNum_def lessNum_def Let_def)
  next
    case (kept x)
    then show ?thesis
      using points \<open>isFinite a \<and> lessNum (Finite 0) a \<longrightarrow> finalAspect a = a\<close>
      unfolding determineLayout_def lit_values og
      by (auto simp: leNum_def lessNum_def Let_def)
  qed
qed

theorem determineLayout_classification_witness:
  "layoutType (determineLayout (photoAspect (Finite 1600, Finite 900))) = Landscape
   \<and> arrangement (determineLayout (photoAspect (Finite 1600, Finite 900))) = Stack
   \<and> layoutType (determineLayout (photoAspect (Finite 1100, Finite 1000))) = Square
   \<and> layoutType (determineLayout (photoAspect (Finite 984, Finite 628))) = Landscape
   \<and> arrangement (determineLayout (photoAspect (Finite 984, Finite 628))) = Stack
   \<and> layoutType (determineLayout NaN) = Square"
proof -
  note t = determineLayout_classification
  have a: "finalAspect (Finite (2001599834386887 / 2 ^ 50)) = Finite (2001599834386887 / 2 ^ 50)"
    "finalAspect (Finite (2476979795053773 / 2 ^ 51)) = Finite (2476979795053773 / 2 ^ 51)"
    "finalAspect (Finite (1764148898619653 / 2 ^ 50)) = Finite (1764148898619653 / 2 ^ 50)"
    by (simp_all add: finalAspect_def leNum_def)
  from t [of "Finite (2001599834386887 / 2 ^ 50)"]
  have 1: "layoutType (determineLayout (Finite (2001599834386887 / 2 ^ 50))) = Landscape
     \<and> arrangement (determineLayout (Finite (2001599834386887 / 2 ^ 50))) = Stack"
    unfolding a lit_values stack_value by (simp add: leNum_def lessNum_def)
  from t [of "Finite (2476979795053773 / 2 ^ 51)"]
  have 2: "layoutType (determineLayout (Finite (2476979795053773 / 2 ^ 51))) = Square"
    unfolding a lit_values by (simp add: leNum_def lessNum_def)
  from t [of "Finite (1764148898619653 / 2 ^ 50)"]
  have 3: "layoutType (determineLayout (Finite (1764148898619653 / 2 ^ 50))) = Landscape
     \<and> arrangement (determineLayout (Finite (1764148898619653 / 2 ^ 50))) = Stack"
    unfolding a lit_values stack_value by (simp add: leNum_def lessNum_def)
  from t [of NaN] have 4: "layoutType (determineLayout NaN) = Square"
    by simp
  from 1 2 3 4 show ?thesis unfolding aspect_values by simp
qed

lemma roundPos_not_neg: "roundPos x \<noteq> NaN \<and> roundPos x \<noteq> NegZero \<and> roundPos x \<noteq> NegInfinity"
  by (simp add: roundPos_cases)

lemma fdiv_pos: "0 < a \<Longrightarrow> 0 < b \<Longrightarrow> fdiv (Finite a) (Finite b) = roundPos (a / b)"
  by (simp add: fdiv_def isZero_def roundDouble_def)

lemma fmul_pos: "0 < a \<Longrightarrow> 0 < b \<Longrightarrow> fmul (Finite a) (Finite b) = roundPos (a * b)"
  by (simp add: fmul_def isZero_def roundDouble_def)

lemma ratio_bound_div:
  fixes q y x :: real
  assumes q: "0 < q" and x: "0 < x" and err: "\<bar>y - q\<bar> \<le> q / 2 ^ 53"
  shows "0 < y \<and> \<bar>q * x / y - x\<bar> \<le> x / 2 ^ 52"
proof -
  have "q * (1 - 1 / 2 ^ 53) = q - q / 2 ^ 53" by (simp add: algebra_simps)
  moreover from err have "q - y \<le> q / 2 ^ 53" by linarith
  ultimately have ylo: "q * (1 - 1 / 2 ^ 53) \<le> y" by linarith
  have "0 < q * (1 - 1 / 2 ^ 53)" using q by simp
  with ylo have y: "0 < y" by linarith
  have "q * x / y - x = x * (q - y) / y" using y by (simp add: field_simps)
  then have "\<bar>q * x / y - x\<bar> = x * \<bar>q - y\<bar> / y"
    using x y by (simp add: abs_mult)
  also have "\<dots> \<le> x * (q / 2 ^ 53) / y"
  proof -
    from err have "\<bar>q - y\<bar> \<le> q / 2 ^ 53" by (simp only: abs_minus_commute)
    then have "x * \<bar>q - y\<bar> \<le> x * (q / 2 ^ 53)"
      using x by (intro mult_left_mono) simp_all
    then show ?thesis using y by (intro divide_right_mono) simp_all
  qed
  also have "\<dots> \<le> x / 2 ^ 52"
  proof -
    have "q / 2 ^ 53 \<le> y / 2 ^ 52"
      using ylo q by (simp add: field_simps)
    then have "x * (q / 2 ^ 53) \<le> x * (y / 2 ^ 52)"
      using x by (intro mult_left_mono) simp_all
    then have "x * (q / 2 ^ 53) / y \<le> x * (y / 2 ^ 52) / y"
      using y by (intro divide_right_mono) simp_all
    also have "x * (y / 2 ^ 52) / y = x / 2 ^ 52" using y by simp
    finally show ?thesis .
  qed
  finally show ?thesis using y by simp
qed

lemma fit_finite:
  fixes mw mh k :: int
  assumes x: "0 < x" and xlt: "x < pow2 1024" and grid: "x = of_int k * pow2 (- 1074)"
    and mw: "4 \<le> mw" "mw < 2 ^ 53" and mh: "0 < mh" "mh < 2 ^ 53"
  shows "\<exists>W H. fitWithinBox (Finite x) \<lparr>maxWidth = Finite (of_int mw), maxHeight = Finite (of_int mh)\<rparr>
               = \<lparr>width = Finite W, height = Finite H\<rparr>
           \<and> 0 \<le> W \<and> W \<le> of_int mw \<and> 0 < H \<and> H \<le> of_int mh
           \<and> \<bar>W / H - x\<bar> \<le> x / 2 ^ 52"
proof -
  let ?mw = "of_int mw :: real" and ?mh = "of_int mh :: real"
  let ?q = "?mw / x"
  have mwp: "0 < ?mw" using mw by simp
  have mhp: "0 < ?mh" using mh by simp
  have qp: "0 < ?q" using mwp x by simp
  have h: "fdiv (Finite ?mw) (Finite x) = roundPos ?q" using mwp x by (rule fdiv_pos)
  show ?thesis
  proof (cases "lessNum (Finite ?mh) (roundPos ?q)")
    case True
    have "\<not> ?q \<le> ?mh"
    proof
      assume "?q \<le> ?mh"
      from roundPos_le_int [OF qp this mh(2)] obtain y where
        "roundPos ?q = Finite y" "y \<le> ?mh" by blast
      with True show False by (simp add: lessNum_def)
    qed
    then have "?mh < ?q" by simp
    then have zlt: "?mh * x < ?mw" using x by (simp add: field_simps)
    let ?z = "?mh * x"
    have zp: "0 < ?z" using mhp x by simp
    have m: "fmul (Finite ?mh) (Finite x) = roundPos ?z" using mhp x by (rule fmul_pos)
    from zlt have "?z \<le> ?mw" by simp
    from roundPos_le_int [OF zp this mw(2)] obtain w where
      w: "roundPos ?z = Finite w" "0 \<le> w" "w \<le> ?mw" by blast
    have err: "\<bar>w - ?z\<bar> \<le> ?z / 2 ^ 53"
    proof (cases "pow2 (- 1022) \<le> ?z")
      case True
      from roundPos_error [OF True w(1)] show ?thesis .
    next
      case False
      then have "?z < pow2 (- 1022)" by simp
      moreover have "?z = of_int (mh * k) * pow2 (- 1074)" by (simp add: grid)
      ultimately have "roundPos ?z = Finite ?z" using zp by (intro roundPos_subnormal)
      with w(1) have "w = ?z" by simp
      then show ?thesis using zp by simp
    qed
    have "w / ?mh - x = (w - ?z) / ?mh" using mhp by (simp add: field_simps)
    then have "\<bar>w / ?mh - x\<bar> = \<bar>w - ?z\<bar> / ?mh" using mhp by simp
    also have "\<dots> \<le> (?z / 2 ^ 53) / ?mh"
      using err mhp by (intro divide_right_mono) simp_all
    also have "\<dots> = x / 2 ^ 53" using mhp by simp
    also have "\<dots> \<le> x / 2 ^ 52" using x by (simp add: field_simps)
    finally have r: "\<bar>w / ?mh - x\<bar> \<le> x / 2 ^ 52" .
    have "fitWithinBox (Finite x) \<lparr>maxWidth = Finite ?mw, maxHeight = Finite ?mh\<rparr>
            = \<lparr>width = Finite w, height = Finite ?mh\<rparr>"
      using True by (simp add: fitWithinBox_def Let_def h m w(1))
    with w r mhp show ?thesis by blast
  next
    case False
    from roundPos_cases [of ?q] obtain y where y: "roundPos ?q = Finite y"
      using False by (auto simp: lessNum_def split: if_splits)
    with False have yle: "y \<le> ?mh" by (simp add: lessNum_def)
    have "pow2 (- 1022) * pow2 1024 = 4"
      using pow2_add [of "- 1022" 1024] by (simp add: pow2_def)
    moreover have "pow2 (- 1022) * x < pow2 (- 1022) * pow2 1024"
      using xlt by (simp add: mult_strict_left_mono)
    ultimately have "pow2 (- 1022) * x < 4" by simp
    also have "4 \<le> ?mw" using mw by simp
    finally have "pow2 (- 1022) \<le> ?q" using x by (simp add: field_simps)
    from roundPos_error [OF this y] have err: "\<bar>y - ?q\<bar> \<le> ?q / 2 ^ 53" .
    from ratio_bound_div [OF qp x err] have yp: "0 < y" and "\<bar>?q * x / y - x\<bar> \<le> x / 2 ^ 52"
      by simp_all
    moreover have "?q * x = ?mw" using x by simp
    ultimately have r: "\<bar>?mw / y - x\<bar> \<le> x / 2 ^ 52" by simp
    have "fitWithinBox (Finite x) \<lparr>maxWidth = Finite ?mw, maxHeight = Finite ?mh\<rparr>
            = \<lparr>width = Finite ?mw, height = Finite y\<rparr>"
      using False by (simp add: fitWithinBox_def Let_def h y)
    with r yp yle mwp show ?thesis by (metis less_imp_le order_refl)
  qed
qed


lemma positive_finite:
  "isFinite d \<and> lessNum (Finite 0) d \<Longrightarrow> \<exists>p. d = Finite p \<and> 0 < p"
  by (cases d) (auto simp: lessNum_def)

lemma photoAspect_roundPos: "\<exists>p q. 0 < p \<and> 0 < q \<and> photoAspect dims = roundPos (p / q)"
proof -
  let ?w = "if isFinite (fst dims) \<and> lessNum (Finite 0) (fst dims) then fst dims else Finite 1"
  let ?h = "if isFinite (snd dims) \<and> lessNum (Finite 0) (snd dims) then snd dims else Finite 1"
  obtain p where p: "?w = Finite p" "0 < p"
    using positive_finite [of "fst dims"] by (cases "isFinite (fst dims) \<and> lessNum (Finite 0) (fst dims)") auto
  obtain q where q: "?h = Finite q" "0 < q"
    using positive_finite [of "snd dims"] by (cases "isFinite (snd dims) \<and> lessNum (Finite 0) (snd dims)") auto
  have "photoAspect dims = fdiv ?w ?h" by (simp add: photoAspect_def Let_def)
  also have "\<dots> = roundPos (p / q)" unfolding p q using p(2) q(2) by (rule fdiv_pos)
  finally show ?thesis using p(2) q(2) by blast
qed

lemma isAspect_roundPos: "0 < t \<Longrightarrow> isAspect (roundPos t)"
proof -
  assume t: "0 < t"
  show ?thesis
  proof (cases "roundPos t")
    case (Finite y)
    from roundPos_double [OF t Finite] obtain k where
      "0 \<le> y" "y < pow2 1024" "y = of_int k * pow2 (- 1074)" by blast
    then show ?thesis by (simp add: Finite)
  qed (simp_all add: roundPos_cases split: if_splits)
qed

lemma isAspect_photoAspect: "isAspect (photoAspect dims)"
  using photoAspect_roundPos [of dims] isAspect_roundPos by (metis divide_pos_pos)

lemma determineLayout_box: "photoBox (determineLayout x) \<in> set layoutBoxes"
  unfolding determineLayout_def box_values layoutBoxes_def by (simp add: Let_def)

lemma layoutBoxes_int:
  assumes "box \<in> set layoutBoxes"
  obtains mw mh :: int where "box = \<lparr>maxWidth = Finite (of_int mw), maxHeight = Finite (of_int mh)\<rparr>"
    "4 \<le> mw" "mw < 2 ^ 53" "0 < mh" "mh < 2 ^ 53"
proof -
  from assms consider "box = \<lparr>maxWidth = Finite 528, maxHeight = Finite 508\<rparr>"
    | "box = \<lparr>maxWidth = Finite 600, maxHeight = Finite 508\<rparr>"
    | "box = \<lparr>maxWidth = Finite 1100, maxHeight = Finite 340\<rparr>"
    | "box = \<lparr>maxWidth = Finite 1092, maxHeight = Finite 410\<rparr>"
    by (auto simp: layoutBoxes_def)
  then show ?thesis
  proof cases
    case 1 show ?thesis by (rule that [of 528 508]) (simp_all add: 1)
  next
    case 2 show ?thesis by (rule that [of 600 508]) (simp_all add: 2)
  next
    case 3 show ?thesis by (rule that [of 1100 340]) (simp_all add: 3)
  next
    case 4 show ?thesis by (rule that [of 1092 410]) (simp_all add: 4)
  qed
qed

lemma fit_zero:
  assumes "0 < mw" "0 < mh"
  shows "fitWithinBox (Finite 0) \<lparr>maxWidth = Finite mw, maxHeight = Finite mh\<rparr>
           = \<lparr>width = Finite 0, height = Finite mh\<rparr>"
    and "fdiv (Finite 0) (Finite mh) = Finite 0"
  using assms
  by (simp_all add: fitWithinBox_def Let_def fdiv_def fmul_def isZero_def withSign_def lessNum_def)

lemma fit_infinity:
  assumes "0 < mw" "0 < mh"
  shows "fitWithinBox PosInfinity \<lparr>maxWidth = Finite mw, maxHeight = Finite mh\<rparr>
           = \<lparr>width = Finite mw, height = Finite 0\<rparr>"
    and "fdiv (Finite mw) (Finite 0) = PosInfinity"
  using assms
  by (simp_all add: fitWithinBox_def Let_def fdiv_def fmul_def isZero_def withSign_def lessNum_def)

lemma fit_values:
  "fitWithinBox (Finite (2001599834386887 / 2 ^ 50)) \<lparr>maxWidth = Finite 1092, maxHeight = Finite 410\<rparr>
     = \<lparr>width = Finite (6411374469520497 / 2 ^ 43), height = Finite 410\<rparr>"
  by (simp add: fitWithinBox_def eval_defs)


lemma landscape_box:
  "photoBox (determineLayout (Finite (2001599834386887 / 2 ^ 50)))
     = \<lparr>maxWidth = Finite 1092, maxHeight = Finite 410\<rparr>"
  unfolding determineLayout_def finalAspect_def lit_values box_values
  by (simp add: leNum_def lessNum_def Let_def)

text \<open>
  Claim C2. \<open>fitWithinBox\<close> is private to the template and is called once, with the aspect
  that \<open>OgTemplate\<close> computes from the two dimensions and the box that
  \<open>determineLayout\<close> returns. Such an aspect is a double that is positive, zero (the
  quotient underflows) or \<open>Infinity\<close> (it overflows), and such a box is one of four. For
  every such aspect and box: the result is the full width with height width/aspect, unless
  that height exceeds the box, in which case it is the full height with width
  height*aspect; neither side exceeds its bound; for a positive finite aspect both sides
  are finite, the height is positive, and the ratio of the sides differs from the aspect by
  at most the aspect times \<open>2^-52\<close>; for the aspects zero and \<open>Infinity\<close> the quotient of
  the sides is the aspect itself.
\<close>

theorem fitWithinBox_contain:
  "(isAspect a \<and> box \<in> set layoutBoxes \<longrightarrow>
      fitWithinBox a box
        = (if lessNum (maxHeight box) (fdiv (maxWidth box) a)
           then \<lparr>width = fmul (maxHeight box) a, height = maxHeight box\<rparr>
           else \<lparr>width = maxWidth box, height = fdiv (maxWidth box) a\<rparr>)
      \<and> leNum (width (fitWithinBox a box)) (maxWidth box)
      \<and> leNum (height (fitWithinBox a box)) (maxHeight box)
      \<and> (isFinite a \<and> lessNum (Finite 0) a \<longrightarrow>
           isFinite (width (fitWithinBox a box)) \<and> isFinite (height (fitWithinBox a box))
           \<and> 0 < valueOf (height (fitWithinBox a box))
           \<and> \<bar>valueOf (width (fitWithinBox a box)) / valueOf (height (fitWithinBox a box))
                - valueOf a\<bar> \<le> valueOf a / 2 ^ 52)
      \<and> (a = Finite 0 \<or> a = PosInfinity \<longrightarrow>
           fdiv (width (fitWithinBox a box)) (height (fitWithinBox a box)) = a))
   \<and> isAspect (photoAspect dims)
   \<and> photoBox (determineLayout b) \<in> set layoutBoxes"
proof -
  have main: "fitWithinBox a box
        = (if lessNum (maxHeight box) (fdiv (maxWidth box) a)
           then \<lparr>width = fmul (maxHeight box) a, height = maxHeight box\<rparr>
           else \<lparr>width = maxWidth box, height = fdiv (maxWidth box) a\<rparr>)
      \<and> leNum (width (fitWithinBox a box)) (maxWidth box)
      \<and> leNum (height (fitWithinBox a box)) (maxHeight box)
      \<and> (isFinite a \<and> lessNum (Finite 0) a \<longrightarrow>
           isFinite (width (fitWithinBox a box)) \<and> isFinite (height (fitWithinBox a box))
           \<and> 0 < valueOf (height (fitWithinBox a box))
           \<and> \<bar>valueOf (width (fitWithinBox a box)) / valueOf (height (fitWithinBox a box))
                - valueOf a\<bar> \<le> valueOf a / 2 ^ 52)
      \<and> (a = Finite 0 \<or> a = PosInfinity \<longrightarrow>
           fdiv (width (fitWithinBox a box)) (height (fitWithinBox a box)) = a)"
    if asp: "isAspect a" and bx: "box \<in> set layoutBoxes"
  proof -
    from bx obtain mw mh :: int where
      box: "box = \<lparr>maxWidth = Finite (of_int mw), maxHeight = Finite (of_int mh)\<rparr>"
      and mw: "4 \<le> mw" "mw < 2 ^ 53" and mh: "0 < mh" "mh < 2 ^ 53"
      by (rule layoutBoxes_int)
    have comp: "fitWithinBox a box
        = (if lessNum (maxHeight box) (fdiv (maxWidth box) a)
           then \<lparr>width = fmul (maxHeight box) a, height = maxHeight box\<rparr>
           else \<lparr>width = maxWidth box, height = fdiv (maxWidth box) a\<rparr>)"
      by (simp add: fitWithinBox_def Let_def)
    have mwp: "0 < (of_int mw :: real)" and mhp: "0 < (of_int mh :: real)"
      using mw mh by simp_all
    from asp consider (zero) "a = Finite 0" | (inf) "a = PosInfinity"
      | (pos) x where "a = Finite x" "0 < x" "x < pow2 1024"
          "of_int \<lfloor>x / pow2 (- 1074)\<rfloor> * pow2 (- 1074) = x"
      by (cases a) (auto simp: less_le)
    then show ?thesis
    proof cases
      case zero
      note r = fit_zero [OF mwp mhp]
      have 1: "leNum (width (fitWithinBox a box)) (maxWidth box)"
        unfolding zero box r using mwp by (simp add: leNum_def)
      have 2: "leNum (height (fitWithinBox a box)) (maxHeight box)"
        unfolding zero box r by (simp add: leNum_def)
      have 3: "\<not> (isFinite a \<and> lessNum (Finite 0) a)"
        unfolding zero by (simp add: lessNum_def)
      have 4: "fdiv (width (fitWithinBox a box)) (height (fitWithinBox a box)) = a"
        unfolding zero box r by (simp add: r)
      from comp 1 2 3 4 show ?thesis by blast
    next
      case inf
      note r = fit_infinity [OF mwp mhp]
      have 1: "leNum (width (fitWithinBox a box)) (maxWidth box)"
        unfolding inf box r by (simp add: leNum_def)
      have 2: "leNum (height (fitWithinBox a box)) (maxHeight box)"
        unfolding inf box r using mhp by (simp add: leNum_def)
      have 3: "\<not> (isFinite a \<and> lessNum (Finite 0) a)"
        unfolding inf by simp
      have 4: "fdiv (width (fitWithinBox a box)) (height (fitWithinBox a box)) = a"
        unfolding inf box r by (simp add: r)
      from comp 1 2 3 4 show ?thesis by blast
    next
      case (pos x)
      from fit_finite [OF pos(2,3) pos(4) [symmetric] mw mh] obtain W H where
        r: "fitWithinBox (Finite x) \<lparr>maxWidth = Finite (of_int mw), maxHeight = Finite (of_int mh)\<rparr>
              = \<lparr>width = Finite W, height = Finite H\<rparr>"
        and b: "0 \<le> W" "W \<le> of_int mw" "0 < H" "H \<le> of_int mh"
          "\<bar>W / H - x\<bar> \<le> x / 2 ^ 52"
        by blast
      have 1: "leNum (width (fitWithinBox a box)) (maxWidth box)"
        unfolding pos(1) box r using b by (simp add: leNum_def)
      have 2: "leNum (height (fitWithinBox a box)) (maxHeight box)"
        unfolding pos(1) box r using b by (simp add: leNum_def)
      have 3: "isFinite (width (fitWithinBox a box)) \<and> isFinite (height (fitWithinBox a box))
           \<and> 0 < valueOf (height (fitWithinBox a box))
           \<and> \<bar>valueOf (width (fitWithinBox a box)) / valueOf (height (fitWithinBox a box))
                - valueOf a\<bar> \<le> valueOf a / 2 ^ 52"
        unfolding pos(1) box r using b by simp
      have 4: "\<not> (a = Finite 0 \<or> a = PosInfinity)"
        using pos(1,2) by simp
      from comp 1 2 3 4 show ?thesis by blast
    qed
  qed
  with isAspect_photoAspect determineLayout_box show ?thesis by blast
qed

theorem fitWithinBox_contain_witness:
  "fitWithinBox (photoAspect (Finite 1600, Finite 900))
       (photoBox (determineLayout (photoAspect (Finite 1600, Finite 900))))
     = \<lparr>width = Finite (6411374469520497 / 2 ^ 43), height = Finite 410\<rparr>
   \<and> leNum (width (fitWithinBox (photoAspect (Finite 1600, Finite 900))
                 (photoBox (determineLayout (photoAspect (Finite 1600, Finite 900))))))
        (Finite 1092)
   \<and> leNum (height (fitWithinBox (photoAspect (Finite 1600, Finite 900))
                 (photoBox (determineLayout (photoAspect (Finite 1600, Finite 900))))))
        (Finite 410)
   \<and> \<bar>valueOf (width (fitWithinBox (photoAspect (Finite 1600, Finite 900))
                 (photoBox (determineLayout (photoAspect (Finite 1600, Finite 900))))))
       / valueOf (height (fitWithinBox (photoAspect (Finite 1600, Finite 900))
                 (photoBox (determineLayout (photoAspect (Finite 1600, Finite 900))))))
       - valueOf (photoAspect (Finite 1600, Finite 900))\<bar>
      \<le> valueOf (photoAspect (Finite 1600, Finite 900)) / 2 ^ 52"
proof -
  let ?a = "photoAspect (Finite 1600, Finite 900)"
  let ?box = "photoBox (determineLayout ?a)"
  note t = fitWithinBox_contain [of ?a ?box "(Finite 1600, Finite 900)" ?a]
  from t have asp: "isAspect ?a" and bx: "?box \<in> set layoutBoxes"
    by blast+
  have pos: "isFinite ?a \<and> lessNum (Finite 0) ?a"
    unfolding aspect_values by (simp add: lessNum_def)
  have box: "?box = \<lparr>maxWidth = Finite 1092, maxHeight = Finite 410\<rparr>"
    unfolding aspect_values by (rule landscape_box)
  have v: "fitWithinBox ?a ?box
     = \<lparr>width = Finite (6411374469520497 / 2 ^ 43), height = Finite 410\<rparr>"
    unfolding box unfolding aspect_values by (rule fit_values)
  from t asp bx pos have
    "leNum (width (fitWithinBox ?a ?box)) (maxWidth ?box)
     \<and> leNum (height (fitWithinBox ?a ?box)) (maxHeight ?box)
     \<and> \<bar>valueOf (width (fitWithinBox ?a ?box)) / valueOf (height (fitWithinBox ?a ?box))
          - valueOf ?a\<bar> \<le> valueOf ?a / 2 ^ 52"
    by blast
  with v show ?thesis by (simp add: box)
qed

section \<open>Properties of the metadata summary\<close>

lemma buildExifInfo_no_exif: "exif photo = None \<Longrightarrow> buildExifInfo nts photo = None"
  by (simp add: buildExifInfo_def)

text \<open>
  The fields of a summary. A field exists when the source's test finds it (it is neither
  missing, nor the empty string, nor zero). In every summary that is returned: the focal
  length is the 35mm-equivalent one when that exists and the native one otherwise; the
  aperture is \<open>f/\<close> followed by the f-number when an f-number exists, and absent
  otherwise; the ISO field is the item's ISO as it is; the shutter speed is the exposure
  time followed by \<open>s\<close> when it exists; the camera is the trimmed make, a space and the
  trimmed model, trimmed again, when both exist, is the model when both are there and one
  of them is empty, and is the other one when make or model is missing. An item without an
  EXIF block, or with none of the fields, has no summary; an item whose only field is an
  ISO value has the summary with that ISO and nothing else.
\<close>

lemma buildExifInfo_fields:
  "(exif photo = None \<longrightarrow> buildExifInfo nts photo = None)
   \<and> (\<forall>ex. exif photo = Some ex \<longrightarrow>
        (\<forall>s. buildExifInfo nts photo = Some s \<longrightarrow>
             (\<forall>f35. FocalLengthIn35mmFormat ex = Some f35 \<and> f35 \<noteq> [] \<longrightarrow> focalLength s = Some f35)
           \<and> (\<not> truthyStr (FocalLengthIn35mmFormat ex) \<longrightarrow> focalLength s = FocalLength ex)
           \<and> (\<forall>v. FNumber ex = Some v \<and> truthy v \<longrightarrow> aperture s = Some (''f/'' @ toStr nts v))
           \<and> (\<not> truthyVal (FNumber ex) \<longrightarrow> aperture s = None)
           \<and> iso s = ISO ex
           \<and> (\<forall>v. ExposureTime ex = Some v \<and> truthy v \<longrightarrow> shutterSpeed s = Some (toStr nts v @ ''s''))
           \<and> (\<not> truthyVal (ExposureTime ex) \<longrightarrow> shutterSpeed s = None)
           \<and> (\<forall>mk md. Make ex = Some mk \<and> Model ex = Some md \<and> mk \<noteq> [] \<and> md \<noteq> [] \<longrightarrow>
                 camera s = Some (trim (trim mk @ '' '' @ trim md)))
           \<and> (\<forall>mk md. Make ex = Some mk \<and> Model ex = Some md \<and> (mk = [] \<or> md = []) \<longrightarrow>
                 camera s = Some md)
           \<and> (Make ex = None \<longrightarrow> camera s = Model ex)
           \<and> (Model ex = None \<longrightarrow> camera s = Make ex))
      \<and> (truthyStr (FocalLengthIn35mmFormat ex) \<or> truthyStr (FocalLength ex) \<or> truthyVal (FNumber ex)
           \<or> truthyVal (ISO ex) \<or> truthyVal (ExposureTime ex)
           \<or> truthyStr (Make ex) \<and> Model ex = None
           \<or> \<not> truthyStr (Make ex) \<and> truthyStr (Model ex)
          \<longrightarrow> buildExifInfo nts photo \<noteq> None)
      \<and> (FocalLengthIn35mmFormat ex = None \<and> FocalLength ex = None \<and> FNumber ex = None
           \<and> ISO ex = None \<and> ExposureTime ex = None \<and> Make ex = None \<and> Model ex = None
          \<longrightarrow> buildExifInfo nts photo = None)
      \<and> (\<forall>v. FocalLengthIn35mmFormat ex = None \<and> FocalLength ex = None \<and> FNumber ex = None
           \<and> ISO ex = Some v \<and> truthy v \<and> ExposureTime ex = None \<and> Make ex = None \<and> Model ex = None
          \<longrightarrow> buildExifInfo nts photo
                = Some \<lparr>focalLength = None, aperture = None, iso = Some v, shutterSpeed = None,
                        camera = None\<rparr>))"
  by (cases "exif photo")
    (auto simp: buildExifInfo_def Let_def split: option.splits if_splits)

text \<open>
  Claim C8 against the code. The camera name is built from make and model when both pass
  the test \<open>exif.Make && exif.Model\<close>, which counts an empty string as missing; the
  fallback \<open>exif.Model ?? exif.Make ?? null\<close> passes over a missing model only, not over
  an empty one. So for the make \<open>Canon\<close> with an empty model, where the make is the single
  field present, the camera is the empty model and not the make: with nothing else in the
  block the item has no summary, and with an ISO value beside it the summary has the empty
  string as its camera. With the two exchanged (an empty make, the model \<open>EOS R5\<close>) the
  camera is the model; with the model missing instead of empty it is the make; and with
  both present it is the two, trimmed of their white space (here a no-break space, a tab
  and a space before the make, a space and four line breaks and feeds after the model) and
  joined.
\<close>

theorem camera_fallback_passes_over_make:
  "buildExifInfo nts
     ((exampleItem ''a'')\<lparr>exif := Some \<lparr>FocalLengthIn35mmFormat = None, FocalLength = None,
         FNumber = None, ISO = None, ExposureTime = None, Make = Some ''Canon'',
         Model = Some [], DateTimeOriginal = None\<rparr>\<rparr>) = None
   \<and> buildExifInfo nts
     ((exampleItem ''a'')\<lparr>exif := Some \<lparr>FocalLengthIn35mmFormat = None, FocalLength = None,
         FNumber = None, ISO = Some (JNumber (Finite 100)), ExposureTime = None,
         Make = Some ''Canon'', Model = Some [], DateTimeOriginal = None\<rparr>\<rparr>)
     = Some \<lparr>focalLength = None, aperture = None, iso = Some (JNumber (Finite 100)),
             shutterSpeed = None, camera = Some []\<rparr>
   \<and> buildExifInfo nts
     ((exampleItem ''a'')\<lparr>exif := Some \<lparr>FocalLengthIn35mmFormat = None, FocalLength = None,
         FNumber = None, ISO = None, ExposureTime = None, Make = Some [],
         Model = Some ''EOS R5'', DateTimeOriginal = None\<rparr>\<rparr>)
     = Some \<lparr>focalLength = None, aperture = None, iso = None, shutterSpeed = None,
             camera = Some ''EOS R5''\<rparr>
   \<and> buildExifInfo nts
     ((exampleItem ''a'')\<lparr>exif := Some \<lparr>FocalLengthIn35mmFormat = None, FocalLength = None,
         FNumber = None, ISO = None, ExposureTime = None, Make = Some ''Canon'',
         Model = None, DateTimeOriginal = None\<rparr>\<rparr>)
     = Some \<lparr>focalLength = None, aperture = None, iso = None, shutterSpeed = None,
             camera = Some ''Canon''\<rparr>
   \<and> buildExifInfo nts
     ((exampleItem ''a'')\<lparr>exif := Some \<lparr>FocalLengthIn35mmFormat = None, FocalLength = None,
         FNumber = None, ISO = None, ExposureTime = None,
         Make = Some (CHR 0xA0 # CHR 0x09 # '' SONY''),
         Model = Some (''ILCE-7M4 '' @ [CHR 0x0A, CHR 0x0B, CHR 0x0C, CHR 0x0D]),
         DateTimeOriginal = None\<rparr>\<rparr>)
     = Some \<lparr>focalLength = None, aperture = None, iso = None, shutterSpeed = None,
             camera = Some ''SONY ILCE-7M4''\<rparr>"
  by (simp add: buildExifInfo_def exampleItem_def trim_def isWhitespace_def)

section \<open>Properties of the thumbnail resolver\<close>

lemma guessContentType_cases:
  "guessContentType u =
     (if endsWith (toLowerCase u) ''.png'' then ''image/png''
      else if endsWith (toLowerCase u) ''.webp'' then ''image/webp'' else ''image/jpeg'')"
  by (simp add: guessContentType_def Let_def)

lemma base64_examples:
  "base64 [77, 97, 110] = ''TWFu''"
  "base64 [77, 97] = ''TWE=''"
  "base64 [77] = ''TQ==''"
  "base64 [255, 224, 0, 16, 74, 70] = ''/+AAEEpG''"
  by (simp_all add: base64Digit_def)

lemma thumb_buffer:
  "pluginData = Some d \<Longrightarrow> buffer d = Some b \<Longrightarrow>
   resolveThumbnailDataUrl w item pluginData
     = (Some (''data:image/jpeg;base64,'' @ base64 b), [])"
  by (simp add: resolveThumbnailDataUrl_def bufferToDataUrl_def)

lemma thumb_no_url:
  "hasNoBuffer pluginData \<Longrightarrow> \<not> truthyStr (chosenUrl item pluginData) \<Longrightarrow>
   resolveThumbnailDataUrl w item pluginData = (None, [])"
  by (cases "chosenUrl item pluginData")
    (auto simp: resolveThumbnailDataUrl_def hasNoBuffer_def split: option.splits)

lemma thumb_remote:
  "hasNoBuffer pluginData \<Longrightarrow> chosenUrl item pluginData = Some u \<Longrightarrow> u \<noteq> [] \<Longrightarrow>
   isHttpUrl u \<Longrightarrow> fetch w u = FetchResponse True (Some bytes) header \<Longrightarrow>
   resolveThumbnailDataUrl w item pluginData
     = (Some (''data:'' @ (case header of Some h \<Rightarrow> h | None \<Rightarrow> guessContentType u)
              @ '';base64,'' @ base64 bytes),
        [Fetch u])"
  by (auto simp: resolveThumbnailDataUrl_def hasNoBuffer_def fetchThumbnail_def Let_def
      bufferToDataUrl_def split: option.splits)

lemma fetchThumbnail_fails:
  "fetchFails (fetch w u) \<Longrightarrow> fst (fetchThumbnail w u c) = None \<and> Fetch u \<in> set (snd (fetchThumbnail w u c))"
  by (auto simp: fetchThumbnail_def fetchFails_def split: FetchResult.splits option.splits)

lemma thumb_local:
  assumes "hasNoBuffer pluginData" "chosenUrl item pluginData = Some u" "u \<noteq> []"
    and "\<not> isHttpUrl u \<or> fetchFails (fetch w u)"
  shows "fst (resolveThumbnailDataUrl w item pluginData)
           = (case readFile w (localThumbnailPath w u) of
                Some bytes \<Rightarrow> Some (''data:'' @ guessContentType u @ '';base64,'' @ base64 bytes)
              | None \<Rightarrow> None)"
    and "(Fetch u \<in> set (snd (resolveThumbnailDataUrl w item pluginData))) = isHttpUrl u"
    and "ReadFile (localThumbnailPath w u) \<in> set (snd (resolveThumbnailDataUrl w item pluginData))"
  using assms fetchThumbnail_fails [of w u "guessContentType u"]
  by (auto simp: resolveThumbnailDataUrl_def hasNoBuffer_def Let_def bufferToDataUrl_def
      split: option.splits)

lemma fetchThumbnail_data:
  "fst (fetchThumbnail w u c) = Some s \<Longrightarrow> take 5 s = ''data:''"
  by (auto simp: fetchThumbnail_def bufferToDataUrl_def
      split: FetchResult.splits option.splits if_splits)

lemma thumb_data:
  "fst (resolveThumbnailDataUrl w item pluginData) = Some s \<Longrightarrow> take 5 s = ''data:''"
  using fetchThumbnail_data [of w _ _ s]
  by (auto simp: resolveThumbnailDataUrl_def bufferToDataUrl_def Let_def
      split: option.splits if_splits)

lemma OgTemplate_photo_cases:
  "OgTemplate_photo props =
     (case thumbnailSrc props of
        None \<Rightarrow>
          NoPreview
            (width (fitWithinBox (photoAspect (photoDimensions props))
                      (photoBox (determineLayout (photoAspect (photoDimensions props))))))
            (height (fitWithinBox (photoAspect (photoDimensions props))
                      (photoBox (determineLayout (photoAspect (photoDimensions props))))))
      | Some s \<Rightarrow>
          if s = [] then
            NoPreview
              (width (fitWithinBox (photoAspect (photoDimensions props))
                        (photoBox (determineLayout (photoAspect (photoDimensions props))))))
              (height (fitWithinBox (photoAspect (photoDimensions props))
                        (photoBox (determineLayout (photoAspect (photoDimensions props))))))
          else
            Image
              (width (fitWithinBox (photoAspect (photoDimensions props))
                        (photoBox (determineLayout (photoAspect (photoDimensions props))))))
              (height (fitWithinBox (photoAspect (photoDimensions props))
                        (photoBox (determineLayout (photoAspect (photoDimensions props))))))
              (photoFit (determineLayout (photoAspect (photoDimensions props)))) s)"
  by (simp add: OgTemplate_photo_def PhotoFrame_def Let_def)

lemma templateOf_props:
  "thumbnailSrc (templateOf w meta fnts item src) = src"
  "photoDimensions (templateOf w meta fnts item src) = getPhotoDimensions item"
  by (simp_all add: templateOf_def)

lemma thumb_placeholder:
  "(fst (resolveThumbnailDataUrl w item pluginData) = None) =
     (OgTemplate_photo
        (templateOf w meta fnts item (fst (resolveThumbnailDataUrl w item pluginData)))
      = NoPreview
          (width (fitWithinBox (photoAspect (getPhotoDimensions item))
                    (photoBox (determineLayout (photoAspect (getPhotoDimensions item))))))
          (height (fitWithinBox (photoAspect (getPhotoDimensions item))
                    (photoBox (determineLayout (photoAspect (getPhotoDimensions item)))))))"
proof (cases "fst (resolveThumbnailDataUrl w item pluginData)")
  case None
  then show ?thesis by (simp add: OgTemplate_photo_cases templateOf_props)
next
  case (Some s)
  from thumb_data [OF Some] have "s \<noteq> []" by auto
  with Some show ?thesis by (simp add: OgTemplate_photo_cases templateOf_props)
qed

text \<open>
  Claim C9. The thumbnail comes from the first source that succeeds, in this order. (1) Bytes
  in memory give the data URL \<open>data:image/jpeg;base64,\<close> followed by their base64 text,
  and nothing is fetched or read. (2) Without them, and with a non-empty URL that starts
  with \<open>http://\<close> or \<open>https://\<close>, the URL is fetched; the bytes of a fetch that succeeds
  give the data URL with the response's content type, or with the type guessed from the URL
  when the response declares none, and nothing is read from disk. (3) When the URL is not
  absolute, or the fetch fails, the URL is read as a path under the public root and gives
  the data URL with the guessed type; when that fails too the result is absent. Without
  bytes and without a URL the result is absent. The guessed type is \<open>image/png\<close> for a
  URL ending in \<open>.png\<close>, \<open>image/webp\<close> for one ending in \<open>.webp\<close>, and
  \<open>image/jpeg\<close> otherwise. The base64 text is that of RFC 4648 on its examples. The
  resolver always returns: each failure of a port is a value it handles. The template that
  the hook hands to the renderer has the result as its thumbnail, and the photo frame of
  \<open>OgTemplate\<close> for that template is the \<open>No Preview\<close> box exactly when the result is
  absent.
\<close>

theorem resolveThumbnailDataUrl_order:
  "(\<forall>d b. pluginData = Some d \<and> buffer d = Some b \<longrightarrow>
       resolveThumbnailDataUrl w item pluginData
         = (Some (''data:image/jpeg;base64,'' @ base64 b), []))
   \<and> (hasNoBuffer pluginData \<and> \<not> truthyStr (chosenUrl item pluginData) \<longrightarrow>
       resolveThumbnailDataUrl w item pluginData = (None, []))
   \<and> (\<forall>u bytes header. hasNoBuffer pluginData \<and> chosenUrl item pluginData = Some u \<and> u \<noteq> []
         \<and> isHttpUrl u \<and> fetch w u = FetchResponse True (Some bytes) header \<longrightarrow>
       resolveThumbnailDataUrl w item pluginData
         = (Some (''data:'' @ (case header of Some h \<Rightarrow> h | None \<Rightarrow> guessContentType u)
                  @ '';base64,'' @ base64 bytes),
            [Fetch u]))
   \<and> (\<forall>u. hasNoBuffer pluginData \<and> chosenUrl item pluginData = Some u \<and> u \<noteq> []
         \<and> (\<not> isHttpUrl u \<or> fetchFails (fetch w u)) \<longrightarrow>
       fst (resolveThumbnailDataUrl w item pluginData)
         = (case readFile w (localThumbnailPath w u) of
              Some bytes \<Rightarrow> Some (''data:'' @ guessContentType u @ '';base64,'' @ base64 bytes)
            | None \<Rightarrow> None)
       \<and> (Fetch u \<in> set (snd (resolveThumbnailDataUrl w item pluginData))) = isHttpUrl u
       \<and> ReadFile (localThumbnailPath w u) \<in> set (snd (resolveThumbnailDataUrl w item pluginData)))
   \<and> (\<forall>u. guessContentType u =
         (if endsWith (toLowerCase u) ''.png'' then ''image/png''
          else if endsWith (toLowerCase u) ''.webp'' then ''image/webp'' else ''image/jpeg''))
   \<and> base64 [77, 97, 110] = ''TWFu'' \<and> base64 [77, 97] = ''TWE='' \<and> base64 [77] = ''TQ==''
   \<and> base64 [255, 224, 0, 16, 74, 70] = ''/+AAEEpG''
   \<and> thumbnailSrc (templateOf w meta fnts item (fst (resolveThumbnailDataUrl w item pluginData)))
        = fst (resolveThumbnailDataUrl w item pluginData)
   \<and> (fst (resolveThumbnailDataUrl w item pluginData) = None) =
       (OgTemplate_photo
          (templateOf w meta fnts item (fst (resolveThumbnailDataUrl w item pluginData)))
        = NoPreview
            (width (fitWithinBox (photoAspect (getPhotoDimensions item))
                      (photoBox (determineLayout (photoAspect (getPhotoDimensions item))))))
            (height (fitWithinBox (photoAspect (getPhotoDimensions item))
                      (photoBox (determineLayout (photoAspect (getPhotoDimensions item)))))))"
proof -
  have 1: "\<forall>d b. pluginData = Some d \<and> buffer d = Some b \<longrightarrow>
       resolveThumbnailDataUrl w item pluginData
         = (Some (''data:image/jpeg;base64,'' @ base64 b), [])"
    using thumb_buffer [of pluginData _ _ w item] by blast
  have 2: "hasNoBuffer pluginData \<and> \<not> truthyStr (chosenUrl item pluginData) \<longrightarrow>
       resolveThumbnailDataUrl w item pluginData = (None, [])"
    using thumb_no_url [of pluginData item w] by blast
  have 3: "\<forall>u bytes header. hasNoBuffer pluginData \<and> chosenUrl item pluginData = Some u \<and> u \<noteq> []
         \<and> isHttpUrl u \<and> fetch w u = FetchResponse True (Some bytes) header \<longrightarrow>
       resolveThumbnailDataUrl w item pluginData
         = (Some (''data:'' @ (case header of Some h \<Rightarrow> h | None \<Rightarrow> guessContentType u)
                  @ '';base64,'' @ base64 bytes),
            [Fetch u])"
    using thumb_remote [of pluginData item _ w] by blast
  have 4: "\<forall>u. hasNoBuffer pluginData \<and> chosenUrl item pluginData = Some u \<and> u \<noteq> []
         \<and> (\<not> isHttpUrl u \<or> fetchFails (fetch w u)) \<longrightarrow>
       fst (resolveThumbnailDataUrl w item pluginData)
         = (case readFile w (localThumbnailPath w u) of
              Some bytes \<Rightarrow> Some (''data:'' @ guessContentType u @ '';base64,'' @ base64 bytes)
            | None \<Rightarrow> None)
       \<and> (Fetch u \<in> set (snd (resolveThumbnailDataUrl w item pluginData))) = isHttpUrl u
       \<and> ReadFile (localThumbnailPath w u) \<in> set (snd (resolveThumbnailDataUrl w item pluginData))"
    using thumb_local [of pluginData item _ w] by blast
  from 1 2 3 4 guessContentType_cases base64_examples
    templateOf_props(1) [of w meta fnts item "fst (resolveThumbnailDataUrl w item pluginData)"]
    thumb_placeholder [of w item pluginData meta fnts]
  show ?thesis by blast
qed

theorem resolveThumbnailDataUrl_order_witness:
  "resolveThumbnailDataUrl
     ((exampleWorld (\<lambda>path. None) \<lparr>uploadFile = (\<lambda>k b c. True), generatePublicUrl = (\<lambda>k. None)\<rparr>)
        \<lparr>fetch := (\<lambda>url. FetchResponse True (Some [1, 2, 3]) None)\<rparr>)
     ((exampleItem ''a'')\<lparr>thumbnailUrl := Some ''HTTPS://cdn.example/t/a.webp''\<rparr>) None
   = (Some ''data:image/webp;base64,AQID'', [Fetch ''HTTPS://cdn.example/t/a.webp''])
   \<and> fst (resolveThumbnailDataUrl
        (exampleWorld (\<lambda>path. if path = ''/repo/public/thumbs/a.png'' then Some [1, 2, 3, 4] else None)
           \<lparr>uploadFile = (\<lambda>k b c. True), generatePublicUrl = (\<lambda>k. None)\<rparr>)
        ((exampleItem ''a'')\<lparr>thumbnailUrl := Some ''//thumbs/a.png''\<rparr>)
        (Some \<lparr>buffer = None, localUrl = Some []\<rparr>))
     = Some ''data:image/png;base64,AQIDBA==''
   \<and> resolveThumbnailDataUrl
        (exampleWorld (\<lambda>path. None) \<lparr>uploadFile = (\<lambda>k b c. True), generatePublicUrl = (\<lambda>k. None)\<rparr>)
        (exampleItem ''a'') (Some \<lparr>buffer = Some [255, 216, 255], localUrl = None\<rparr>)
     = (Some ''data:image/jpeg;base64,/9j/'', [])
   \<and> OgTemplate_photo
        (templateOf
           (exampleWorld (\<lambda>path. None)
              \<lparr>uploadFile = (\<lambda>k b c. True), generatePublicUrl = (\<lambda>k. None)\<rparr>)
           \<lparr>siteName = ''Photo Gallery'', accentColor = None\<rparr> exampleFonts
           ((exampleItem ''a'')\<lparr>thumbnailUrl := Some ''/thumbs/a.png''\<rparr>)
           (fst (resolveThumbnailDataUrl
              (exampleWorld (\<lambda>path. None)
                 \<lparr>uploadFile = (\<lambda>k b c. True), generatePublicUrl = (\<lambda>k. None)\<rparr>)
              ((exampleItem ''a'')\<lparr>thumbnailUrl := Some ''/thumbs/a.png''\<rparr>) None)))
     = NoPreview (Finite 615) (Finite 410)"
proof -
  let ?sm = "\<lparr>uploadFile = (\<lambda>k b c. True), generatePublicUrl = (\<lambda>k. None)\<rparr>"
  let ?w0 = "exampleWorld (\<lambda>path. None) ?sm"
  let ?w1 = "?w0\<lparr>fetch := (\<lambda>url. FetchResponse True (Some [1, 2, 3]) None)\<rparr>"
  let ?i1 = "(exampleItem ''a'')\<lparr>thumbnailUrl := Some ''HTTPS://cdn.example/t/a.webp''\<rparr>"
  let ?w2 = "exampleWorld (\<lambda>path. if path = ''/repo/public/thumbs/a.png'' then Some [1, 2, 3, 4] else None) ?sm"
  let ?i2 = "(exampleItem ''a'')\<lparr>thumbnailUrl := Some ''//thumbs/a.png''\<rparr>"
  let ?d2 = "Some \<lparr>buffer = None, localUrl = Some []\<rparr>"
  let ?d3 = "Some \<lparr>buffer = Some [255, 216, 255], localUrl = None\<rparr>"
  let ?i4 = "(exampleItem ''a'')\<lparr>thumbnailUrl := Some ''/thumbs/a.png''\<rparr>"
  let ?meta = "\<lparr>siteName = ''Photo Gallery'', accentColor = None\<rparr>"
  have a: "hasNoBuffer None \<and> chosenUrl ?i1 None = Some ''HTTPS://cdn.example/t/a.webp''
           \<and> isHttpUrl ''HTTPS://cdn.example/t/a.webp''
           \<and> fetch ?w1 ''HTTPS://cdn.example/t/a.webp'' = FetchResponse True (Some [1, 2, 3]) None"
    by (simp add: hasNoBuffer_def chosenUrl_def exampleItem_def exampleWorld_def isHttpUrl_def
        toLowerCase_def toLowerChar_def)
  have g: "guessContentType ''HTTPS://cdn.example/t/a.webp'' = ''image/webp''"
    by (simp add: guessContentType_def toLowerCase_def toLowerChar_def endsWith_def Let_def)
  have b: "hasNoBuffer ?d2 \<and> chosenUrl ?i2 ?d2 = Some ''//thumbs/a.png''
           \<and> \<not> isHttpUrl ''//thumbs/a.png''"
    by (simp add: hasNoBuffer_def chosenUrl_def exampleItem_def isHttpUrl_def
        toLowerCase_def toLowerChar_def)
  have g2: "guessContentType ''//thumbs/a.png'' = ''image/png''"
    by (simp add: guessContentType_def toLowerCase_def toLowerChar_def endsWith_def Let_def)
  have p: "readFile ?w2 (localThumbnailPath ?w2 ''//thumbs/a.png'') = Some [1, 2, 3, 4]"
    by (simp add: localThumbnailPath_def exampleWorld_def)
  from resolveThumbnailDataUrl_order [of None ?w1 ?i1] a g
  have 1: "resolveThumbnailDataUrl ?w1 ?i1 None
      = (Some ''data:image/webp;base64,AQID'', [Fetch ''HTTPS://cdn.example/t/a.webp''])"
    by (simp add: base64Digit_def)
  from resolveThumbnailDataUrl_order [of ?d2 ?w2 ?i2] b g2 p
  have 2: "fst (resolveThumbnailDataUrl ?w2 ?i2 ?d2) = Some ''data:image/png;base64,AQIDBA==''"
    by (simp add: base64Digit_def)
  from resolveThumbnailDataUrl_order [of ?d3 ?w0 "exampleItem ''a''"]
  have 3: "resolveThumbnailDataUrl ?w0 (exampleItem ''a'') ?d3
      = (Some ''data:image/jpeg;base64,/9j/'', [])"
    by (simp add: base64Digit_def)
  have c: "hasNoBuffer None \<and> chosenUrl ?i4 None = Some ''/thumbs/a.png''
           \<and> \<not> isHttpUrl ''/thumbs/a.png''
           \<and> readFile ?w0 (localThumbnailPath ?w0 ''/thumbs/a.png'') = None"
    by (simp add: hasNoBuffer_def chosenUrl_def exampleItem_def isHttpUrl_def
        toLowerCase_def toLowerChar_def exampleWorld_def)
  from resolveThumbnailDataUrl_order [of None ?w0 ?i4] c
  have n: "fst (resolveThumbnailDataUrl ?w0 ?i4 None) = None"
    by simp
  have dims: "getPhotoDimensions ?i4 = (Finite 3, Finite 2)"
    by (simp add: getPhotoDimensions_def exampleItem_def)
  have asp: "photoAspect (Finite 3, Finite 2) = Finite (3 / 2)"
    by (simp add: photoAspect_def eval_defs)
  have box: "photoBox (determineLayout (Finite (3 / 2)))
      = \<lparr>maxWidth = Finite 1092, maxHeight = Finite 410\<rparr>"
    unfolding determineLayout_def finalAspect_def lit_values box_values
    by (simp add: leNum_def lessNum_def Let_def)
  have fit: "fitWithinBox (Finite (3 / 2)) \<lparr>maxWidth = Finite 1092, maxHeight = Finite 410\<rparr>
      = \<lparr>width = Finite 615, height = Finite 410\<rparr>"
    by (simp add: fitWithinBox_def eval_defs)
  from resolveThumbnailDataUrl_order [of None ?w0 ?i4 ?meta exampleFonts] n
  have 4: "OgTemplate_photo (templateOf ?w0 ?meta exampleFonts ?i4
              (fst (resolveThumbnailDataUrl ?w0 ?i4 None)))
      = NoPreview (Finite 615) (Finite 410)"
    by (simp add: dims asp box fit)
  from 1 2 3 4 show ?thesis by simp
qed

section \<open>Properties of the hook and of a run\<close>

lemma uploadsIn_append [simp]: "uploadsIn (xs @ ys) = uploadsIn xs @ uploadsIn ys"
  by (induction xs rule: uploadsIn.induct) simp_all

lemma rendersIn_append [simp]: "rendersIn (xs @ ys) = rendersIn xs @ rendersIn ys"
  by (induction xs rule: rendersIn.induct) simp_all

lemma lookupsIn_append [simp]: "lookupsIn (xs @ ys) = lookupsIn xs @ lookupsIn ys"
  by (induction xs rule: lookupsIn.induct) simp_all

lemma statsIn_append [simp]: "statsIn (xs @ ys) = statsIn xs @ statsIn ys"
  by (induction xs rule: statsIn.induct) simp_all

lemma fontWarningsIn_append [simp]:
  "fontWarningsIn (xs @ ys) = fontWarningsIn xs + fontWarningsIn ys"
  by (simp add: fontWarningsIn_def)

lemma fontWarningsIn_Nil [simp]: "fontWarningsIn [] = 0"
  by (simp add: fontWarningsIn_def)

lemma rejectionsIn_append [simp]: "rejectionsIn (xs @ ys) = rejectionsIn xs @ rejectionsIn ys"
  by (induction xs rule: rejectionsIn.induct) simp_all

lemma fontWarningsIn_Cons [simp]:
  "fontWarningsIn (e # es) = (if e = fontsNotFoundWarning then 1 else 0) + fontWarningsIn es"
  by (simp add: fontWarningsIn_def)

lemma fetchThumbnail_events [simp]:
  "uploadsIn (snd (fetchThumbnail w u c)) = []"
  "rendersIn (snd (fetchThumbnail w u c)) = []"
  "lookupsIn (snd (fetchThumbnail w u c)) = []"
  "statsIn (snd (fetchThumbnail w u c)) = []"
  "fontWarningsIn (snd (fetchThumbnail w u c)) = 0"
  "rejectionsIn (snd (fetchThumbnail w u c)) = []"
  by (simp_all add: fetchThumbnail_def fontsNotFoundWarning_def
      split: FetchResult.splits option.splits)

lemma resolveThumbnailDataUrl_events [simp]:
  "uploadsIn (snd (resolveThumbnailDataUrl w item pd)) = []"
  "rendersIn (snd (resolveThumbnailDataUrl w item pd)) = []"
  "lookupsIn (snd (resolveThumbnailDataUrl w item pd)) = []"
  "statsIn (snd (resolveThumbnailDataUrl w item pd)) = []"
  "fontWarningsIn (snd (resolveThumbnailDataUrl w item pd)) = 0"
  "rejectionsIn (snd (resolveThumbnailDataUrl w item pd)) = []"
  by (simp_all add: resolveThumbnailDataUrl_def Let_def fontsNotFoundWarning_def
      split: option.splits)

lemma loadSiteMeta_events [simp]:
  "uploadsIn (snd (loadSiteMeta opts w)) = []"
  "rendersIn (snd (loadSiteMeta opts w)) = []"
  "lookupsIn (snd (loadSiteMeta opts w)) = []"
  "statsIn (snd (loadSiteMeta opts w)) = []"
  "fontWarningsIn (snd (loadSiteMeta opts w)) = 0"
  "rejectionsIn (snd (loadSiteMeta opts w)) = []"
  by (simp_all add: loadSiteMeta_def Let_def fontsNotFoundWarning_def
      split: option.splits sum.splits)

lemma firstFile_events [simp]:
  "uploadsIn (snd (firstFile w cs)) = []"
  "rendersIn (snd (firstFile w cs)) = []"
  "lookupsIn (snd (firstFile w cs)) = []"
  "fontWarningsIn (snd (firstFile w cs)) = 0"
  "rejectionsIn (snd (firstFile w cs)) = []"
  by (induction cs) (simp_all add: fontsNotFoundWarning_def split: option.splits)

lemma loadFonts_events [simp]:
  "uploadsIn (snd (loadFonts w)) = []"
  "rendersIn (snd (loadFonts w)) = []"
  "lookupsIn (snd (loadFonts w)) = []"
  "rejectionsIn (snd (loadFonts w)) = []"
  by (simp_all add: loadFonts_def loadFontFile_def Let_def fontsNotFoundWarning_def
      split: option.splits sum.splits)

lemma loadFonts_warnings:
  "fontWarningsIn (snd (loadFonts w)) = (if fst (loadFonts w) = Inr None then 1 else 0)"
  by (simp add: loadFonts_def loadFontFile_def Let_def split: option.splits sum.splits)

lemma resolveUrl_facts [simp]:
  "uploaded (fst (resolveUrl sm st it k)) = uploaded st"
  "fonts (fst (resolveUrl sm st it k)) = fonts st"
  "uploadsIn (snd (snd (resolveUrl sm st it k))) = []"
  "rendersIn (snd (snd (resolveUrl sm st it k))) = []"
  "statsIn (snd (snd (resolveUrl sm st it k))) = []"
  "fontWarningsIn (snd (snd (resolveUrl sm st it k))) = 0"
  "rejectionsIn (snd (snd (resolveUrl sm st it k))) = []"
  by (simp_all add: resolveUrl_def fontsNotFoundWarning_def split: option.splits)

lemma resolveExisting_facts [simp]:
  "uploaded (fst (resolveExisting sm st it k)) = uploaded st"
  "fonts (fst (resolveExisting sm st it k)) = fonts st"
  "uploadsIn (snd (snd (resolveExisting sm st it k))) = []"
  "rendersIn (snd (snd (resolveExisting sm st it k))) = []"
  "statsIn (snd (snd (resolveExisting sm st it k))) = []"
  "fontWarningsIn (snd (snd (resolveExisting sm st it k))) = 0"
  "rejectionsIn (snd (snd (resolveExisting sm st it k))) = []"
  by (simp_all add: resolveExisting_def fontsNotFoundWarning_def split: option.splits)

lemma publish_facts [simp]:
  "uploaded (fst (publish r sm opts st it k png))
     = (if mustUpload opts st k \<and> uploadFile sm k png (contentType r)
        then insert k (uploaded st) else uploaded st)"
  "fonts (fst (publish r sm opts st it k png)) = fonts st"
  "uploadsIn (snd (snd (publish r sm opts st it k png)))
     = (if mustUpload opts st k then [(k, uploadFile sm k png (contentType r))] else [])"
  "rendersIn (snd (snd (publish r sm opts st it k png))) = []"
  "statsIn (snd (snd (publish r sm opts st it k png))) = []"
  "fontWarningsIn (snd (snd (publish r sm opts st it k png))) = 0"
  "rejectionsIn (snd (snd (publish r sm opts st it k png))) = []"
  by (simp_all add: publish_def mustUpload_def split_beta fontsNotFoundWarning_def)

lemma renderAndPublish_facts [simp]:
  "fonts (fst (renderAndPublish w r sm p meta fnts st it k)) = fonts st"
  "statsIn (snd (snd (renderAndPublish w r sm p meta fnts st it k))) = []"
  "fontWarningsIn (snd (snd (renderAndPublish w r sm p meta fnts st it k))) = 0"
  "length (rendersIn (snd (snd (renderAndPublish w r sm p meta fnts st it k)))) = 1"
  "rejectionsIn (snd (snd (renderAndPublish w r sm p meta fnts st it k))) = []"
  by (simp_all add: renderAndPublish_def Let_def split_beta fontsNotFoundWarning_def
      split: option.splits)

lemma renderAndPublish_uploaded:
  "uploaded (fst (renderAndPublish w r sm p meta fnts st it k))
     = uploaded st \<union> {k'. (k', True) \<in> set (uploadsIn (snd (snd (renderAndPublish w r sm p meta fnts st it k))))}"
  by (auto simp add: renderAndPublish_def Let_def split_beta split: option.splits)

lemma ensureLoaded_facts [simp]:
  "uploaded (fst (ensureLoaded pl w st)) = uploaded st"
  "urlCache (fst (ensureLoaded pl w st)) = urlCache st"
  "fonts (fst (ensureLoaded pl w st))
     = (case fonts st of
          Some f \<Rightarrow> Some f
        | None \<Rightarrow> (case fst (loadFonts w) of Inr f \<Rightarrow> f | Inl e \<Rightarrow> None))"
  "uploadsIn (fst (snd (snd (ensureLoaded pl w st)))) = []"
  "rendersIn (fst (snd (snd (ensureLoaded pl w st)))) = []"
  "lookupsIn (fst (snd (snd (ensureLoaded pl w st)))) = []"
  "rejectionsIn (fst (snd (snd (ensureLoaded pl w st)))) = []"
  "fontWarningsIn (fst (snd (snd (ensureLoaded pl w st))))
     = (if fonts st = None \<and> fst (loadFonts w) = Inr None then 1 else 0)"
  "snd (snd (snd (ensureLoaded pl w st)))
     = (case fonts st of
          Some f \<Rightarrow> None
        | None \<Rightarrow> (case fst (loadFonts w) of Inr f \<Rightarrow> None | Inl e \<Rightarrow> Some e))"
  by (simp_all add: ensureLoaded_def Let_def loadFonts_warnings split: option.splits sum.splits)


lemma hook_idle:
  assumes "storageOf pl p = None"
  shows "fst (afterPhotoProcess pl w p rs) = rs"
    and "fst (snd (afterPhotoProcess pl w p rs)) = resultItem p"
    and "uploadsIn (snd (snd (afterPhotoProcess pl w p rs))) = []"
    and "rendersIn (snd (snd (afterPhotoProcess pl w p rs))) = []"
    and "lookupsIn (snd (snd (afterPhotoProcess pl w p rs))) = []"
    and "fontWarningsIn (snd (snd (afterPhotoProcess pl w p rs))) = 0"
    and "rejectionsIn (snd (snd (afterPhotoProcess pl w p rs))) = []"
  using assms
  by (auto simp: afterPhotoProcess_def storageOf_def fontsNotFoundWarning_def
      split: option.splits if_splits)

lemma storageOf_SomeD:
  "storageOf pl p = Some ref \<Longrightarrow>
   \<exists>r item. resolved pl = Some r \<and> enabled r \<and> resultItem p = Some item
     \<and> (if useDefaultStorage r then Some BuilderStorage else externalStorageManager pl) = Some ref"
  by (auto simp: storageOf_def split: option.splits if_splits)

lemma hook_active:
  assumes "resolved pl = Some r" "enabled r" "resultItem p = Some item"
    and "(if useDefaultStorage r then Some BuilderStorage else externalStorageManager pl) = Some ref"
  shows "afterPhotoProcess pl w p rs =
     (let loaded = ensureLoaded pl w (getOrCreateRunState rs)
      in case snd (snd (snd loaded)) of
           Some e \<Rightarrow> (Some (fst loaded), Some item, fst (snd (snd loaded)) @ [Rejected e])
         | None \<Rightarrow>
             (case fonts (fst loaded) of
                None \<Rightarrow> (Some (fst loaded), Some item, fst (snd (snd loaded)))
              | Some fnts \<Rightarrow>
                  (let result =
                         (if \<not> shouldRender p
                          then resolveExisting (storage w ref) (fst loaded) item
                                 (remoteKeyOf r item)
                          else renderAndPublish w r (storage w ref) p (fst (snd loaded)) fnts
                                 (fst loaded) item (remoteKeyOf r item))
                   in (Some (fst result), Some (fst (snd result)),
                       fst (snd (snd loaded)) @ snd (snd result)))))"
  unfolding afterPhotoProcess_def remoteKeyOf_def Let_def
  using assms by (simp del: ensureLoaded_facts cong: option.case_cong)

lemma getOrCreate_Some [simp]: "getOrCreateRunState (Some st) = st"
  by (simp add: getOrCreateRunState_def)

lemma hook_uploaded:
  "uploadedOf (fst (afterPhotoProcess pl w p rs))
     = uploadedOf rs \<union> {k. (k, True) \<in> set (uploadsIn (snd (snd (afterPhotoProcess pl w p rs))))}"
proof (cases "storageOf pl p")
  case None
  then show ?thesis by (simp add: hook_idle)
next
  case (Some ref)
  then obtain r item where a: "resolved pl = Some r" "enabled r" "resultItem p = Some item"
    "(if useDefaultStorage r then Some BuilderStorage else externalStorageManager pl) = Some ref"
    using storageOf_SomeD by blast
  show ?thesis
    by (simp add: hook_active [OF a] Let_def uploadedOf_def renderAndPublish_uploaded
        split: option.splits)
qed


lemma run_Cons_proj:
  "fst (run pl ((w, p) # rest) rs) = fst (run pl rest (fst (afterPhotoProcess pl w p rs)))"
  "fst (snd (run pl ((w, p) # rest) rs))
     = fst (snd (afterPhotoProcess pl w p rs))
       # fst (snd (run pl rest (fst (afterPhotoProcess pl w p rs))))"
  "snd (snd (run pl ((w, p) # rest) rs))
     = snd (snd (afterPhotoProcess pl w p rs))
       @ snd (snd (run pl rest (fst (afterPhotoProcess pl w p rs))))"
  by (simp_all add: split_beta)

lemma run_append_fst: "fst (run pl (xs @ ys) rs) = fst (run pl ys (fst (run pl xs rs)))"
  by (induction xs arbitrary: rs) (auto simp: split_beta)

lemma run_uploaded:
  "uploadedOf (fst (run pl steps rs))
     = uploadedOf rs \<union> {k. (k, True) \<in> set (uploadsIn (snd (snd (run pl steps rs))))}"
proof (induction steps arbitrary: rs)
  case Nil
  show ?case by simp
next
  case (Cons step steps)
  obtain w p where step: "step = (w, p)" by (cases step)
  show ?case
    unfolding step run_Cons_proj
    by (subst Cons.IH, subst hook_uploaded) auto
qed


lemma ensureLoaded_siteMeta_events [simp]:
  "statsIn (fst (snd (snd (ensureLoaded pl w st))))
     = (case fonts st of Some f \<Rightarrow> [] | None \<Rightarrow> statsIn (snd (loadFonts w)))"
  by (simp add: ensureLoaded_def Let_def split: option.splits sum.splits)

lemma hook_cases:
  obtains (idle) "storageOf pl p = None"
  | (active) ref r item where "storageOf pl p = Some ref" "resolved pl = Some r" "enabled r"
      "resultItem p = Some item"
      "(if useDefaultStorage r then Some BuilderStorage else externalStorageManager pl) = Some ref"
  using storageOf_SomeD [of pl p] by (cases "storageOf pl p") blast+

text \<open>
  Claim C3. When the item was skipped upstream and neither force flag is set, the hook makes
  no upload and no render. Whenever its URL lookup succeeds, the key looked up is the
  item's remote key, the URL is stored under it in the URL cache of the run state and written
  to the item's \<open>ogImageUrl\<close>. Whenever the lookup fails, the item is returned as it came
  and the URL cache is as before. When the plugin is enabled with a storage manager and the
  fonts are loaded, the lookup is made, once, for the item's remote key. In each case the
  run goes on with the remaining items from the state that the call left.
\<close>

theorem skipped_item_only_looked_up:
  assumes skip: "resultType payload = ''skipped''"
    and nf: "\<not> isForceMode (buildOptions payload)" "\<not> isForceManifest (buildOptions payload)"
  shows "uploadsIn (snd (snd (afterPhotoProcess pl w payload rs))) = []
    \<and> rendersIn (snd (snd (afterPhotoProcess pl w payload rs))) = []
    \<and> (\<forall>k u. (k, Some u) \<in> set (lookupsIn (snd (snd (afterPhotoProcess pl w payload rs)))) \<longrightarrow>
          urlCacheOf (fst (afterPhotoProcess pl w payload rs)) k = Some u
          \<and> (\<exists>item r. resultItem payload = Some item \<and> resolved pl = Some r
                \<and> k = remoteKeyOf r item
                \<and> fst (snd (afterPhotoProcess pl w payload rs)) = Some (item\<lparr>ogImageUrl := Some u\<rparr>)))
    \<and> (\<forall>k. (k, None) \<in> set (lookupsIn (snd (snd (afterPhotoProcess pl w payload rs)))) \<longrightarrow>
          fst (snd (afterPhotoProcess pl w payload rs)) = resultItem payload
          \<and> urlCacheOf (fst (afterPhotoProcess pl w payload rs)) = urlCacheOf rs)
    \<and> (\<forall>ref r item. storageOf pl payload = Some ref \<and> resolved pl = Some r
            \<and> resultItem payload = Some item
            \<and> fontsOf (fst (afterPhotoProcess pl w payload rs)) \<noteq> None \<longrightarrow>
          lookupsIn (snd (snd (afterPhotoProcess pl w payload rs)))
            = [(remoteKeyOf r item, generatePublicUrl (storage w ref) (remoteKeyOf r item))])
    \<and> (\<forall>rest. fst (snd (run pl ((w, payload) # rest) rs))
          = fst (snd (afterPhotoProcess pl w payload rs))
            # fst (snd (run pl rest (fst (afterPhotoProcess pl w payload rs)))))"
proof -
  from skip nf have sr: "\<not> shouldRender payload" by (simp add: shouldRender_def)
  show ?thesis
  proof (cases rule: hook_cases [of pl payload])
    case idle
    then show ?thesis by (simp add: hook_idle run_Cons_proj del: run.simps)
  next
    case (active ref r item)
    note h = hook_active [OF active(2,3,4,5), of w rs]
    show ?thesis
      using sr active(1,2,4)
      by (simp add: h Let_def run_Cons_proj urlCacheOf_def fontsOf_def resolveExisting_def
          del: run.simps split: option.splits sum.splits)
  qed
qed


lemma publish_failed:
  "mustUpload opts st k \<Longrightarrow> \<not> uploadFile sm k png (contentType r) \<Longrightarrow>
   publish r sm opts st it k png
     = (st, it, [UploadFile k False, LogMsg LError (''OG image plugin: failed to upload '' @ k)])"
  by (simp add: publish_def mustUpload_def)

lemma renderAndPublish_uploads:
  "uploadsIn (snd (snd (renderAndPublish w r sm p meta fnts st it k)))
     = (case renderOgImage w (templateOf w meta fnts it
                (fst (resolveThumbnailDataUrl w it (thumbnailData p)))) of
          None \<Rightarrow> []
        | Some png \<Rightarrow>
            if mustUpload (buildOptions p) st k
            then [(k, uploadFile sm k png (contentType r))] else [])"
  by (simp add: renderAndPublish_def Let_def split_beta split: option.splits)

lemma renderAndPublish_renders:
  "rendersIn (snd (snd (renderAndPublish w r sm p meta fnts st it k)))
     = [renderOgImage w (templateOf w meta fnts it
                (fst (resolveThumbnailDataUrl w it (thumbnailData p)))) \<noteq> None]"
  by (simp add: renderAndPublish_def Let_def split_beta split: option.splits)

lemma hook_upload_decision:
  assumes r: "resolved pl = Some r" and it: "resultItem payload = Some item"
    and key: "remoteKeyOf r item \<in> uploadedOf rs"
  shows "((isForceMode (buildOptions payload) \<or> isForceManifest (buildOptions payload))
          \<and> rendersIn (snd (snd (afterPhotoProcess pl w payload rs))) = [True] \<longrightarrow>
            (\<exists>ok. uploadsIn (snd (snd (afterPhotoProcess pl w payload rs)))
                    = [(remoteKeyOf r item, ok)]))
    \<and> (\<not> isForceMode (buildOptions payload) \<and> \<not> isForceManifest (buildOptions payload) \<longrightarrow>
            uploadsIn (snd (snd (afterPhotoProcess pl w payload rs))) = [])"
proof (cases rule: hook_cases [of pl payload])
  case idle
  then show ?thesis by (simp add: hook_idle)
next
  case (active ref r' item')
  with r it have eq: "r' = r" "item' = item" by simp_all
  note h = hook_active [OF active(2,3,4,5), of w rs, unfolded eq]
  from key have k: "remoteKeyOf r item \<in> uploaded (getOrCreateRunState rs)"
    by (simp add: uploadedOf_def)
  show ?thesis
    using k
    by (simp add: h Let_def renderAndPublish_uploads renderAndPublish_renders mustUpload_def
        split: option.splits)
qed


lemma renderAndPublish_failed_upload:
  assumes "(k', False) \<in> set (uploadsIn (snd (snd (renderAndPublish w r sm p meta fnts st it k))))"
  shows "k' = k
    \<and> fst (renderAndPublish w r sm p meta fnts st it k) = st
    \<and> fst (snd (renderAndPublish w r sm p meta fnts st it k)) = it
    \<and> uploadsIn (snd (snd (renderAndPublish w r sm p meta fnts st it k))) = [(k, False)]
    \<and> rendersIn (snd (snd (renderAndPublish w r sm p meta fnts st it k))) = [True]
    \<and> lookupsIn (snd (snd (renderAndPublish w r sm p meta fnts st it k))) = []
    \<and> (\<exists>before. snd (snd (renderAndPublish w r sm p meta fnts st it k))
          = before @ [RenderOgImage True, UploadFile k False,
                      LogMsg LError (''OG image plugin: failed to upload '' @ k)])"
proof -
  let ?png = "renderOgImage w (templateOf w meta fnts it
                (fst (resolveThumbnailDataUrl w it (thumbnailData p))))"
  show ?thesis
  proof (cases ?png)
    case None
    with assms show ?thesis by (simp add: renderAndPublish_uploads)
  next
    case (Some png)
    with assms have must: "mustUpload (buildOptions p) st k"
      and bad: "\<not> uploadFile sm k png (contentType r)" and k: "k' = k"
      by (auto simp: renderAndPublish_uploads split: if_splits)
    show ?thesis
      using Some k by (simp add: renderAndPublish_def Let_def publish_failed [OF must bad])
  qed
qed

text \<open>
  Claim C5. When an upload fails, it is the only upload of the call (nothing is retried) and it
  follows the one successful render; the failure log is the last thing the call does; no URL
  is looked up; the uploaded keys and the URL cache of the run state are as before; the item
  is returned as it came.
\<close>

theorem failed_upload_aborts_item:
  assumes bad: "(k, False) \<in> set (uploadsIn (snd (snd (afterPhotoProcess pl w payload rs))))"
  shows "uploadsIn (snd (snd (afterPhotoProcess pl w payload rs))) = [(k, False)]
    \<and> rendersIn (snd (snd (afterPhotoProcess pl w payload rs))) = [True]
    \<and> lookupsIn (snd (snd (afterPhotoProcess pl w payload rs))) = []
    \<and> uploadedOf (fst (afterPhotoProcess pl w payload rs)) = uploadedOf rs
    \<and> urlCacheOf (fst (afterPhotoProcess pl w payload rs)) = urlCacheOf rs
    \<and> fst (snd (afterPhotoProcess pl w payload rs)) = resultItem payload
    \<and> (\<exists>before. snd (snd (afterPhotoProcess pl w payload rs))
          = before @ [RenderOgImage True, UploadFile k False,
                      LogMsg LError (''OG image plugin: failed to upload '' @ k)])"
proof (cases rule: hook_cases [of pl payload])
  case idle
  with bad show ?thesis by (simp add: hook_idle)
next
  case (active ref r item)
  note h = hook_active [OF active(2,3,4,5), of w rs]
  let ?loaded = "ensureLoaded pl w (getOrCreateRunState rs)"
  from bad have err: "snd (snd (snd ?loaded)) = None"
    by (cases "snd (snd (snd ?loaded))") (auto simp: h Let_def simp del: ensureLoaded_facts(3,9))
  with bad obtain fnts where f: "fonts (fst ?loaded) = Some fnts" and sr: "shouldRender payload"
    by (cases "fonts (fst ?loaded)"; cases "shouldRender payload")
      (auto simp: h Let_def simp del: ensureLoaded_facts(3,9))
  let ?rp = "renderAndPublish w r (storage w ref) payload (fst (snd ?loaded)) fnts
               (fst ?loaded) item (remoteKeyOf r item)"
  have ev: "afterPhotoProcess pl w payload rs
              = (Some (fst ?rp), Some (fst (snd ?rp)),
                 fst (snd (snd ?loaded)) @ snd (snd ?rp))"
    using f sr err by (simp add: h Let_def del: ensureLoaded_facts(3,9))
  from bad have "(k, False) \<in> set (uploadsIn (snd (snd ?rp)))"
    by (simp add: ev)
  from renderAndPublish_failed_upload [OF this]
  show ?thesis
    by (auto simp: ev active(4) uploadedOf_def urlCacheOf_def)
qed


lemma firstFile_not_found:
  "\<forall>c \<in> set cs. \<not> isFile w c \<Longrightarrow> fst (firstFile w cs) = Inr None"
  by (induction cs) simp_all

lemma firstFile_found:
  "fst (firstFile w cs) = Inr (Some b) \<Longrightarrow> \<exists>c \<in> set cs. isFile w c"
  by (induction cs) (auto split: if_splits option.splits)

lemma firstFile_readable:
  "\<forall>c \<in> set cs. isFile w c \<longrightarrow> readFile w c \<noteq> None \<Longrightarrow> fst (firstFile w cs) \<noteq> Inl e"
  by (induction cs) (auto split: if_splits option.splits)

lemma loadFonts_Some:
  assumes "fst (loadFonts w) = Inr (Some f)"
  shows "\<exists>gb hb. fst (loadFontFile w ''Geist-Medium.ttf'') = Inr (Some gb)
           \<and> fst (loadFontFile w ''HarmonyOS_Sans_SC_Medium.ttf'') = Inr (Some hb)"
  using assms
  by (auto simp: loadFonts_def Let_def split: sum.splits option.splits)

lemma loadFonts_missing: "fontsMissing w \<Longrightarrow> fst (loadFonts w) \<noteq> Inr (Some f)"
proof
  assume m: "fontsMissing w" and l: "fst (loadFonts w) = Inr (Some f)"
  from loadFonts_Some [OF l] obtain gb hb where
    g: "fst (firstFile w (fontCandidates w ''Geist-Medium.ttf'')) = Inr (Some gb)"
    and h: "fst (firstFile w (fontCandidates w ''HarmonyOS_Sans_SC_Medium.ttf'')) = Inr (Some hb)"
    by (auto simp: loadFontFile_def)
  from firstFile_found [OF g] firstFile_found [OF h] m show False
    by (auto simp: fontsMissing_def)
qed

lemma loadFonts_Inl:
  assumes "fst (loadFonts w) = Inl e"
  shows "fst (loadFontFile w ''Geist-Medium.ttf'') = Inl e
           \<or> fst (loadFontFile w ''HarmonyOS_Sans_SC_Medium.ttf'') = Inl e"
  using assms
  by (auto simp: loadFonts_def Let_def split: sum.splits option.splits)

lemma loadFonts_readable: "fontsReadable w \<Longrightarrow> fst (loadFonts w) \<noteq> Inl e"
proof
  assume r: "fontsReadable w" and l: "fst (loadFonts w) = Inl e"
  from r have
    "\<forall>c \<in> set (fontCandidates w ''Geist-Medium.ttf''). isFile w c \<longrightarrow> readFile w c \<noteq> None"
    "\<forall>c \<in> set (fontCandidates w ''HarmonyOS_Sans_SC_Medium.ttf'').
       isFile w c \<longrightarrow> readFile w c \<noteq> None"
    by (simp_all add: fontsReadable_def)
  from firstFile_readable [OF this(1), of e] firstFile_readable [OF this(2), of e]
    loadFonts_Inl [OF l]
  show False by (simp add: loadFontFile_def)
qed

lemma loadFonts_missing_cases:
  assumes "fontsMissing w"
  obtains (none) "fst (loadFonts w) = Inr None" | (threw) e where "fst (loadFonts w) = Inl e"
proof (cases "fst (loadFonts w)")
  case (Inl e)
  then show ?thesis by (rule threw)
next
  case (Inr f)
  with loadFonts_missing [OF assms] have "fst (loadFonts w) = Inr None"
    by (cases f) auto
  then show ?thesis by (rule none)
qed

lemma hook_without_fonts:
  assumes "fontsOf rs = None" "fontsMissing w"
  shows "rendersIn (snd (snd (afterPhotoProcess pl w p rs))) = []"
    and "uploadsIn (snd (snd (afterPhotoProcess pl w p rs))) = []"
    and "lookupsIn (snd (snd (afterPhotoProcess pl w p rs))) = []"
    and "fst (snd (afterPhotoProcess pl w p rs)) = resultItem p"
    and "fontsOf (fst (afterPhotoProcess pl w p rs)) = None"
    and "fontsReadable w \<longrightarrow> rejectionsIn (snd (snd (afterPhotoProcess pl w p rs))) = []"
    and "fontsReadable w \<longrightarrow>
           fontWarningsIn (snd (snd (afterPhotoProcess pl w p rs)))
             = (if storageOf pl p = None then 0 else 1)"
proof -
  from assms(1) have f: "fonts (getOrCreateRunState rs) = None"
    by (simp add: fontsOf_def)
  have "rendersIn (snd (snd (afterPhotoProcess pl w p rs))) = []
    \<and> uploadsIn (snd (snd (afterPhotoProcess pl w p rs))) = []
    \<and> lookupsIn (snd (snd (afterPhotoProcess pl w p rs))) = []
    \<and> fst (snd (afterPhotoProcess pl w p rs)) = resultItem p
    \<and> fontsOf (fst (afterPhotoProcess pl w p rs)) = None
    \<and> (fontsReadable w \<longrightarrow> rejectionsIn (snd (snd (afterPhotoProcess pl w p rs))) = [])
    \<and> (fontsReadable w \<longrightarrow>
           fontWarningsIn (snd (snd (afterPhotoProcess pl w p rs)))
             = (if storageOf pl p = None then 0 else 1))"
  proof (cases rule: hook_cases [of pl p])
    case idle
    with assms(1) show ?thesis by (simp add: hook_idle)
  next
    case (active ref r item)
    note h = hook_active [OF active(2,3,4,5), of w rs]
    from assms(2) show ?thesis
    proof (cases rule: loadFonts_missing_cases)
      case none
      with f active(1,4) show ?thesis
        by (simp add: h Let_def fontsOf_def)
    next
      case (threw e)
      with loadFonts_readable [of w e] have "\<not> fontsReadable w" by blast
      with threw f active(1,4) show ?thesis
        by (simp add: h Let_def fontsOf_def fontsNotFoundWarning_def)
    qed
  qed
  then show "rendersIn (snd (snd (afterPhotoProcess pl w p rs))) = []"
    and "uploadsIn (snd (snd (afterPhotoProcess pl w p rs))) = []"
    and "lookupsIn (snd (snd (afterPhotoProcess pl w p rs))) = []"
    and "fst (snd (afterPhotoProcess pl w p rs)) = resultItem p"
    and "fontsOf (fst (afterPhotoProcess pl w p rs)) = None"
    and "fontsReadable w \<longrightarrow> rejectionsIn (snd (snd (afterPhotoProcess pl w p rs))) = []"
    and "fontsReadable w \<longrightarrow>
           fontWarningsIn (snd (snd (afterPhotoProcess pl w p rs)))
             = (if storageOf pl p = None then 0 else 1)"
    by simp_all
qed

lemma missing_fonts_skip_from:
  assumes "\<forall>step \<in> set steps. fontsMissing (fst step)" and "fontsOf rs = None"
  shows "rendersIn (snd (snd (run pl steps rs))) = []
    \<and> uploadsIn (snd (snd (run pl steps rs))) = []
    \<and> lookupsIn (snd (snd (run pl steps rs))) = []
    \<and> fst (snd (run pl steps rs)) = map (\<lambda>step. resultItem (snd step)) steps
    \<and> fontsOf (fst (run pl steps rs)) = None
    \<and> ((\<forall>step \<in> set steps. fontsReadable (fst step)) \<longrightarrow>
          rejectionsIn (snd (snd (run pl steps rs))) = [])"
  using assms
proof (induction steps arbitrary: rs)
  case Nil
  then show ?case by simp
next
  case (Cons step steps)
  obtain w p where step: "step = (w, p)" by (cases step)
  from Cons.prems step have m: "fontsMissing w" by simp
  note h = hook_without_fonts [OF Cons.prems(2) m, of pl p]
  from Cons.prems have "\<forall>step \<in> set steps. fontsMissing (fst step)" by simp
  from Cons.IH [OF this h(5)] show ?case
    unfolding step run_Cons_proj using h(6) by (simp add: h(1-5))
qed

text \<open>
  Claim C6, as stated, fails. \<open>Geist-Medium.ttf\<close> is at none of its candidate paths, and
  \<open>stat\<close> finds \<open>HarmonyOS_Sans_SC_Medium.ttf\<close> at its first candidate path, where it
  cannot be read. The search for the first font ends without a file, the second font is
  looked for all the same, its \<open>readFile\<close> rejects, and nothing between that call and
  the hook catches the error: the call logs no warning and its promise rejects.
\<close>

theorem unreadable_font_rejects_hook:
  "fontsMissing
     ((exampleWorld (\<lambda>path. None) (exampleStorage True True))
        \<lparr>isFile := (\<lambda>path. path
            = ''/repo/be/apps/core/src/modules/content/og/assets/HarmonyOS_Sans_SC_Medium.ttf'')\<rparr>)
   \<and> afterPhotoProcess examplePlugin
       ((exampleWorld (\<lambda>path. None) (exampleStorage True True))
          \<lparr>isFile := (\<lambda>path. path
              = ''/repo/be/apps/core/src/modules/content/og/assets/HarmonyOS_Sans_SC_Medium.ttf'')\<rparr>)
       (examplePayload ''a'' ''new'' False) None
     = (Some \<lparr>uploaded = {}, urlCache = Map.empty, fonts = None,
               siteMeta = Some \<lparr>siteName = ''Photo Gallery'', accentColor = Some ''#007bff''\<rparr>\<rparr>,
        Some (exampleItem ''a''),
        [ReadSiteConfig ''/repo/config.json'',
         LogMsg LInfo
           ''OG image plugin: using fallback site meta (/repo/config.json not readable: ENOENT).'',
         Stat ''/repo/be/apps/core/src/modules/content/og/assets/Geist-Medium.ttf'',
         Stat ''/repo/apps/core/src/modules/content/og/assets/Geist-Medium.ttf'',
         Stat ''/repo/core/src/modules/content/og/assets/Geist-Medium.ttf'',
         Stat ''/repo/be/apps/core/src/modules/content/og/assets/HarmonyOS_Sans_SC_Medium.ttf'',
         ReadFile ''/repo/be/apps/core/src/modules/content/og/assets/HarmonyOS_Sans_SC_Medium.ttf'',
         Rejected (ReadError
           ''/repo/be/apps/core/src/modules/content/og/assets/HarmonyOS_Sans_SC_Medium.ttf'')])
   \<and> rejectionsIn (snd (snd (run examplePlugin
        [((exampleWorld (\<lambda>path. None) (exampleStorage True True))
            \<lparr>isFile := (\<lambda>path. path
                = ''/repo/be/apps/core/src/modules/content/og/assets/HarmonyOS_Sans_SC_Medium.ttf'')\<rparr>,
          examplePayload ''a'' ''new'' False)] None)))
     = [ReadError ''/repo/be/apps/core/src/modules/content/og/assets/HarmonyOS_Sans_SC_Medium.ttf'']"
proof -
  let ?w = "(exampleWorld (\<lambda>path. None) (exampleStorage True True))
        \<lparr>isFile := (\<lambda>path. path
            = ''/repo/be/apps/core/src/modules/content/og/assets/HarmonyOS_Sans_SC_Medium.ttf'')\<rparr>"
  have m: "fontsMissing ?w"
    by (simp add: fontsMissing_def exampleWorld_def fontCandidates_def ogAssetsDir_def)
  have h: "afterPhotoProcess examplePlugin ?w (examplePayload ''a'' ''new'' False) None
     = (Some \<lparr>uploaded = {}, urlCache = Map.empty, fonts = None,
               siteMeta = Some \<lparr>siteName = ''Photo Gallery'', accentColor = Some ''#007bff''\<rparr>\<rparr>,
        Some (exampleItem ''a''),
        [ReadSiteConfig ''/repo/config.json'',
         LogMsg LInfo
           ''OG image plugin: using fallback site meta (/repo/config.json not readable: ENOENT).'',
         Stat ''/repo/be/apps/core/src/modules/content/og/assets/Geist-Medium.ttf'',
         Stat ''/repo/apps/core/src/modules/content/og/assets/Geist-Medium.ttf'',
         Stat ''/repo/core/src/modules/content/og/assets/Geist-Medium.ttf'',
         Stat ''/repo/be/apps/core/src/modules/content/og/assets/HarmonyOS_Sans_SC_Medium.ttf'',
         ReadFile ''/repo/be/apps/core/src/modules/content/og/assets/HarmonyOS_Sans_SC_Medium.ttf'',
         Rejected (ReadError
           ''/repo/be/apps/core/src/modules/content/og/assets/HarmonyOS_Sans_SC_Medium.ttf'')])"
    by (simp add: afterPhotoProcess_def examplePlugin_def exampleWorld_def examplePayload_def
        exampleStorage_def exampleItem_def ensureLoaded_def Let_def getOrCreateRunState_def
        loadSiteMeta_def loadFonts_def loadFontFile_def fontCandidates_def ogAssetsDir_def
        trimOr_def DEFAULT_SITE_NAME_def DEFAULT_ACCENT_COLOR_def
        del: ensureLoaded_facts)
  from m h show ?thesis by (simp add: split_beta)
qed

text \<open>
  Claim C6, amended. In a run (it starts with an empty container) in which, at every call,
  one of the two font files is found at none of its candidate paths, there is no render, no
  upload and no URL lookup, every item (skipped upstream or not) is returned as it came,
  no fonts are ever in the run state, and the run yields one item per call. When, in
  addition, every font file that is found can be read, no call rejects: the missing fonts
  are not fatal to the run.
\<close>

theorem missing_fonts_skip_whole_run:
  assumes "\<forall>step \<in> set steps. fontsMissing (fst step)"
  shows "rendersIn (snd (snd (run pl steps None))) = []
    \<and> uploadsIn (snd (snd (run pl steps None))) = []
    \<and> lookupsIn (snd (snd (run pl steps None))) = []
    \<and> fst (snd (run pl steps None)) = map (\<lambda>step. resultItem (snd step)) steps
    \<and> length (fst (snd (run pl steps None))) = length steps
    \<and> fontsOf (fst (run pl steps None)) = None
    \<and> ((\<forall>step \<in> set steps. fontsReadable (fst step)) \<longrightarrow>
          rejectionsIn (snd (snd (run pl steps None))) = [])"
proof -
  have "fontsOf None = None"
    by (simp add: fontsOf_def getOrCreateRunState_def)
  from missing_fonts_skip_from [OF assms this, of pl] show ?thesis
    by simp
qed

text \<open>
  While the fonts are missing and what is found of them can be read, every call that gets as
  far as the run state logs the warning: a run logs it as many times as it has such calls.
\<close>

lemma missing_fonts_warn_per_item:
  assumes "\<forall>step \<in> set steps. fontsMissing (fst step) \<and> fontsReadable (fst step)"
    and "fontsOf rs = None"
  shows "fontWarningsIn (snd (snd (run pl steps rs)))
           = length (filter (\<lambda>step. storageOf pl (snd step) \<noteq> None) steps)"
  using assms
proof (induction steps arbitrary: rs)
  case Nil
  then show ?case by simp
next
  case (Cons step steps)
  obtain w p where step: "step = (w, p)" by (cases step)
  from Cons.prems step have m: "fontsMissing w" and r: "fontsReadable w" by simp_all
  note h = hook_without_fonts [OF Cons.prems(2) m, of pl p]
  from Cons.prems
  have "\<forall>step \<in> set steps. fontsMissing (fst step) \<and> fontsReadable (fst step)" by simp
  from Cons.IH [OF this h(5)] h(7) r show ?case
    unfolding step run_Cons_proj by simp
qed

text \<open>
  Claim C10. A call of the hook leaves as uploaded keys those it found and the keys whose
  upload succeeded in that call, and nothing else; so does a whole run. The uploaded keys
  after a part of a run are among those after a longer run. A run that starts with an empty
  container has, for every uploaded key, a successful upload of that key among its events.
\<close>

theorem uploadedKeys_only_grow:
  "uploadedOf (fst (afterPhotoProcess pl w p rs))
     = uploadedOf rs \<union> {k. (k, True) \<in> set (uploadsIn (snd (snd (afterPhotoProcess pl w p rs))))}
   \<and> uploadedOf (fst (run pl steps rs))
     = uploadedOf rs \<union> {k. (k, True) \<in> set (uploadsIn (snd (snd (run pl steps rs))))}
   \<and> uploadedOf (fst (run pl steps rs)) \<subseteq> uploadedOf (fst (run pl (steps @ later) rs))
   \<and> uploadedOf None = {}
   \<and> (\<forall>k \<in> uploadedOf (fst (run pl steps None)).
         (k, True) \<in> set (uploadsIn (snd (snd (run pl steps None)))))"
proof -
  have "uploadedOf (fst (run pl (steps @ later) rs))
          = uploadedOf (fst (run pl steps rs))
            \<union> {k. (k, True) \<in> set (uploadsIn (snd (snd (run pl later (fst (run pl steps rs))))))}"
    by (simp only: run_append_fst run_uploaded)
  moreover have "uploadedOf None = {}"
    by (simp add: uploadedOf_def getOrCreateRunState_def)
  ultimately show ?thesis
    using hook_uploaded [of pl w p rs] run_uploaded [of pl steps rs] run_uploaded [of pl steps None]
    by auto
qed

section \<open>The hook on examples\<close>

lemmas example_defs = afterPhotoProcess_def examplePlugin_def exampleWorld_def examplePayload_def
  exampleState_def exampleStorage_def exampleItem_def ensureLoaded_def Let_def shouldRender_def
  renderAndPublish_def publish_def resolveUrl_def resolveExisting_def resolveThumbnailDataUrl_def
  chosenUrl_def joinSegments_def stripSlashes_def remoteKeyOf_def getOrCreateRunState_def
  uploadedOf_def urlCacheOf_def fontsOf_def storageOf_def

lemma example_skipped_found:
  "afterPhotoProcess examplePlugin (exampleWorld (\<lambda>path. None) (exampleStorage True True))
     (examplePayload ''a'' ''skipped'' False) (Some (exampleState {}))
   = (Some ((exampleState {})\<lparr>urlCache := [''og/a.png'' \<mapsto> ''https://cdn.example/og/a.png'']\<rparr>),
      Some ((exampleItem ''a'')\<lparr>ogImageUrl := Some ''https://cdn.example/og/a.png''\<rparr>),
      [GeneratePublicUrl ''og/a.png'' (Some ''https://cdn.example/og/a.png'')])"
  by (simp add: example_defs)

lemma example_skipped_not_found:
  "afterPhotoProcess examplePlugin (exampleWorld (\<lambda>path. None) (exampleStorage True False))
     (examplePayload ''a'' ''skipped'' False) (Some (exampleState {}))
   = (Some (exampleState {}), Some (exampleItem ''a''),
      [GeneratePublicUrl ''og/a.png'' None,
       LogMsg LInfo ''OG image plugin: skipped rendering and could not resolve URL for og/a.png.''])"
  by (simp add: example_defs)

lemma example_forced:
  "afterPhotoProcess examplePlugin (exampleWorld (\<lambda>path. None) (exampleStorage True True))
     (examplePayload ''a'' ''skipped'' True) (Some (exampleState {''og/a.png''}))
   = (Some ((exampleState {''og/a.png''})\<lparr>urlCache := [''og/a.png'' \<mapsto> ''https://cdn.example/og/a.png'']\<rparr>),
      Some ((exampleItem ''a'')\<lparr>ogImageUrl := Some ''https://cdn.example/og/a.png''\<rparr>),
      [RenderOgImage True, UploadFile ''og/a.png'' True,
       GeneratePublicUrl ''og/a.png'' (Some ''https://cdn.example/og/a.png'')])"
  by (simp add: example_defs)

lemma example_upload_fails:
  "afterPhotoProcess examplePlugin (exampleWorld (\<lambda>path. None) (exampleStorage False True))
     (examplePayload ''a'' ''new'' False) (Some (exampleState {}))
   = (Some (exampleState {}), Some (exampleItem ''a''),
      [RenderOgImage True, UploadFile ''og/a.png'' False,
       LogMsg LError ''OG image plugin: failed to upload og/a.png''])"
  by (simp add: example_defs)

lemma example_fontsMissing: "fontsMissing (exampleWorld (\<lambda>path. None) sm)"
  by (simp add: fontsMissing_def exampleWorld_def)

lemma example_no_fonts_run:
  "run examplePlugin
     [(exampleWorld (\<lambda>path. None) (exampleStorage True True), examplePayload ''a'' ''new'' False),
      (exampleWorld (\<lambda>path. None) (exampleStorage True True), examplePayload ''b'' ''skipped'' False)]
     None
   = (Some \<lparr>uploaded = {}, urlCache = Map.empty, fonts = None,
             siteMeta = Some \<lparr>siteName = ''Photo Gallery'', accentColor = Some ''#007bff''\<rparr>\<rparr>,
      [Some (exampleItem ''a''), Some (exampleItem ''b'')],
      [ReadSiteConfig ''/repo/config.json'',
       LogMsg LInfo
         ''OG image plugin: using fallback site meta (/repo/config.json not readable: ENOENT).'',
       Stat ''/repo/be/apps/core/src/modules/content/og/assets/Geist-Medium.ttf'',
       Stat ''/repo/apps/core/src/modules/content/og/assets/Geist-Medium.ttf'',
       Stat ''/repo/core/src/modules/content/og/assets/Geist-Medium.ttf'',
       Stat ''/repo/be/apps/core/src/modules/content/og/assets/HarmonyOS_Sans_SC_Medium.ttf'',
       Stat ''/repo/apps/core/src/modules/content/og/assets/HarmonyOS_Sans_SC_Medium.ttf'',
       Stat ''/repo/core/src/modules/content/og/assets/HarmonyOS_Sans_SC_Medium.ttf'',
       fontsNotFoundWarning,
       Stat ''/repo/be/apps/core/src/modules/content/og/assets/Geist-Medium.ttf'',
       Stat ''/repo/apps/core/src/modules/content/og/assets/Geist-Medium.ttf'',
       Stat ''/repo/core/src/modules/content/og/assets/Geist-Medium.ttf'',
       Stat ''/repo/be/apps/core/src/modules/content/og/assets/HarmonyOS_Sans_SC_Medium.ttf'',
       Stat ''/repo/apps/core/src/modules/content/og/assets/HarmonyOS_Sans_SC_Medium.ttf'',
       Stat ''/repo/core/src/modules/content/og/assets/HarmonyOS_Sans_SC_Medium.ttf'',
       fontsNotFoundWarning])"
  by (simp add: example_defs loadSiteMeta_def loadFonts_def loadFontFile_def fontCandidates_def
      ogAssetsDir_def trimOr_def DEFAULT_SITE_NAME_def DEFAULT_ACCENT_COLOR_def
      del: ensureLoaded_facts)


theorem skipped_item_only_looked_up_witness:
  "resultType (examplePayload ''a'' ''skipped'' False) = ''skipped''
   \<and> \<not> isForceMode (buildOptions (examplePayload ''a'' ''skipped'' False))
   \<and> \<not> isForceManifest (buildOptions (examplePayload ''a'' ''skipped'' False))
   \<and> (''og/a.png'', Some ''https://cdn.example/og/a.png'')
        \<in> set (lookupsIn (snd (snd (afterPhotoProcess examplePlugin
               (exampleWorld (\<lambda>path. None) (exampleStorage True True))
               (examplePayload ''a'' ''skipped'' False) (Some (exampleState {}))))))
   \<and> urlCacheOf (fst (afterPhotoProcess examplePlugin
          (exampleWorld (\<lambda>path. None) (exampleStorage True True))
          (examplePayload ''a'' ''skipped'' False) (Some (exampleState {})))) ''og/a.png''
        = Some ''https://cdn.example/og/a.png''
   \<and> uploadsIn (snd (snd (afterPhotoProcess examplePlugin
          (exampleWorld (\<lambda>path. None) (exampleStorage True True))
          (examplePayload ''a'' ''skipped'' False) (Some (exampleState {}))))) = []
   \<and> (''og/a.png'', None)
        \<in> set (lookupsIn (snd (snd (afterPhotoProcess examplePlugin
               (exampleWorld (\<lambda>path. None) (exampleStorage True False))
               (examplePayload ''a'' ''skipped'' False) (Some (exampleState {}))))))
   \<and> fst (snd (afterPhotoProcess examplePlugin
          (exampleWorld (\<lambda>path. None) (exampleStorage True False))
          (examplePayload ''a'' ''skipped'' False) (Some (exampleState {}))))
        = resultItem (examplePayload ''a'' ''skipped'' False)"
proof -
  let ?p = "examplePayload ''a'' ''skipped'' False"
  have h: "resultType ?p = ''skipped''" "\<not> isForceMode (buildOptions ?p)"
    "\<not> isForceManifest (buildOptions ?p)"
    by (simp_all add: examplePayload_def)
  have l1: "(''og/a.png'', Some ''https://cdn.example/og/a.png'')
        \<in> set (lookupsIn (snd (snd (afterPhotoProcess examplePlugin
               (exampleWorld (\<lambda>path. None) (exampleStorage True True)) ?p
               (Some (exampleState {}))))))"
    by (simp add: example_skipped_found)
  have l2: "(''og/a.png'', None)
        \<in> set (lookupsIn (snd (snd (afterPhotoProcess examplePlugin
               (exampleWorld (\<lambda>path. None) (exampleStorage True False)) ?p
               (Some (exampleState {}))))))"
    by (simp add: example_skipped_not_found)
  from skipped_item_only_looked_up [OF h, of examplePlugin
      "exampleWorld (\<lambda>path. None) (exampleStorage True True)" "Some (exampleState {})"]
    skipped_item_only_looked_up [OF h, of examplePlugin
      "exampleWorld (\<lambda>path. None) (exampleStorage True False)" "Some (exampleState {})"]
    h l1 l2
  show ?thesis by blast
qed


theorem failed_upload_aborts_item_witness:
  "(''og/a.png'', False)
     \<in> set (uploadsIn (snd (snd (afterPhotoProcess examplePlugin
            (exampleWorld (\<lambda>path. None) (exampleStorage False True))
            (examplePayload ''a'' ''new'' False) (Some (exampleState {}))))))
   \<and> uploadedOf (fst (afterPhotoProcess examplePlugin
          (exampleWorld (\<lambda>path. None) (exampleStorage False True))
          (examplePayload ''a'' ''new'' False) (Some (exampleState {}))))
        = uploadedOf (Some (exampleState {}))
   \<and> lookupsIn (snd (snd (afterPhotoProcess examplePlugin
          (exampleWorld (\<lambda>path. None) (exampleStorage False True))
          (examplePayload ''a'' ''new'' False) (Some (exampleState {}))))) = []
   \<and> fst (snd (afterPhotoProcess examplePlugin
          (exampleWorld (\<lambda>path. None) (exampleStorage False True))
          (examplePayload ''a'' ''new'' False) (Some (exampleState {}))))
        = resultItem (examplePayload ''a'' ''new'' False)"
proof -
  have b: "(''og/a.png'', False)
     \<in> set (uploadsIn (snd (snd (afterPhotoProcess examplePlugin
            (exampleWorld (\<lambda>path. None) (exampleStorage False True))
            (examplePayload ''a'' ''new'' False) (Some (exampleState {}))))))"
    by (simp add: example_upload_fails)
  from failed_upload_aborts_item [OF b] b show ?thesis by blast
qed

lemma example_fontsReadable: "fontsReadable (exampleWorld (\<lambda>path. None) sm)"
  by (simp add: fontsReadable_def exampleWorld_def)

theorem missing_fonts_skip_whole_run_witness:
  "rendersIn (snd (snd (run examplePlugin
        [(exampleWorld (\<lambda>path. None) (exampleStorage True True),
          examplePayload ''a'' ''new'' False),
         (exampleWorld (\<lambda>path. None) (exampleStorage True True),
          examplePayload ''b'' ''skipped'' False)] None))) = []
   \<and> uploadsIn (snd (snd (run examplePlugin
        [(exampleWorld (\<lambda>path. None) (exampleStorage True True),
          examplePayload ''a'' ''new'' False),
         (exampleWorld (\<lambda>path. None) (exampleStorage True True),
          examplePayload ''b'' ''skipped'' False)] None))) = []
   \<and> fst (snd (run examplePlugin
        [(exampleWorld (\<lambda>path. None) (exampleStorage True True),
          examplePayload ''a'' ''new'' False),
         (exampleWorld (\<lambda>path. None) (exampleStorage True True),
          examplePayload ''b'' ''skipped'' False)] None))
      = [Some (exampleItem ''a''), Some (exampleItem ''b'')]
   \<and> rejectionsIn (snd (snd (run examplePlugin
        [(exampleWorld (\<lambda>path. None) (exampleStorage True True),
          examplePayload ''a'' ''new'' False),
         (exampleWorld (\<lambda>path. None) (exampleStorage True True),
          examplePayload ''b'' ''skipped'' False)] None))) = []"
proof -
  let ?steps = "[(exampleWorld (\<lambda>path. None) (exampleStorage True True),
                     examplePayload ''a'' ''new'' False),
                    (exampleWorld (\<lambda>path. None) (exampleStorage True True),
                     examplePayload ''b'' ''skipped'' False)]"
  have m: "\<forall>step \<in> set ?steps. fontsMissing (fst step)"
    by (simp add: example_fontsMissing)
  have r: "\<forall>step \<in> set ?steps. fontsReadable (fst step)"
    by (simp add: example_fontsReadable)
  from missing_fonts_skip_whole_run [OF m, of examplePlugin] r
  show ?thesis by (simp add: examplePayload_def del: run.simps)
qed

lemma example_dedup_run:
  "uploadedOf (fst (run examplePlugin
      [(exampleWorld (\<lambda>path. Some [0]) (exampleStorage True True),
        examplePayload ''a'' ''new'' False),
       (exampleWorld (\<lambda>path. Some [0]) (exampleStorage True True),
        examplePayload ''a'' ''new'' False)] None)) = {''og/a.png''}"
  "uploadsIn (snd (snd (run examplePlugin
      [(exampleWorld (\<lambda>path. Some [0]) (exampleStorage True True),
        examplePayload ''a'' ''new'' False),
       (exampleWorld (\<lambda>path. Some [0]) (exampleStorage True True),
        examplePayload ''a'' ''new'' False)] None))) = [(''og/a.png'', True)]"
  by (simp_all add: example_defs loadSiteMeta_def loadFonts_def loadFontFile_def
      fontCandidates_def ogAssetsDir_def trimOr_def DEFAULT_SITE_NAME_def
      DEFAULT_ACCENT_COLOR_def del: ensureLoaded_facts)

theorem uploadedKeys_only_grow_witness:
  "''og/a.png'' \<in> uploadedOf (fst (run examplePlugin
      [(exampleWorld (\<lambda>path. Some [0]) (exampleStorage True True),
        examplePayload ''a'' ''new'' False),
       (exampleWorld (\<lambda>path. Some [0]) (exampleStorage True True),
        examplePayload ''a'' ''new'' False)] None))
   \<and> (''og/a.png'', True) \<in> set (uploadsIn (snd (snd (run examplePlugin
      [(exampleWorld (\<lambda>path. Some [0]) (exampleStorage True True),
        examplePayload ''a'' ''new'' False),
       (exampleWorld (\<lambda>path. Some [0]) (exampleStorage True True),
        examplePayload ''a'' ''new'' False)] None))))"
proof -
  let ?steps = "[(exampleWorld (\<lambda>path. Some [0]) (exampleStorage True True),
        examplePayload ''a'' ''new'' False),
       (exampleWorld (\<lambda>path. Some [0]) (exampleStorage True True),
        examplePayload ''a'' ''new'' False)]"
  have m: "''og/a.png'' \<in> uploadedOf (fst (run examplePlugin ?steps None))"
    by (simp only: example_dedup_run) simp
  from uploadedKeys_only_grow [of examplePlugin _ _ None ?steps "[]"] m
  show ?thesis by blast
qed

text \<open>
  Claim C7 against the code. The run state starts with \<open>fonts = null\<close>, a failed search
  stores \<open>null\<close> again, and the guard \<open>!state.fonts\<close> cannot tell the two apart. In a
  run of two items with no font file on disk the search is made for each item: both calls
  stat all six candidate paths, and the warning is logged twice.
\<close>

theorem font_check_repeated_for_each_item:
  "fontWarningsIn (snd (snd (run examplePlugin
      [(exampleWorld (\<lambda>path. None) (exampleStorage True True),
        examplePayload ''a'' ''new'' False),
       (exampleWorld (\<lambda>path. None) (exampleStorage True True),
        examplePayload ''b'' ''skipped'' False)] None))) = 2
   \<and> length (statsIn (snd (snd (run examplePlugin
      [(exampleWorld (\<lambda>path. None) (exampleStorage True True),
        examplePayload ''a'' ''new'' False),
       (exampleWorld (\<lambda>path. None) (exampleStorage True True),
        examplePayload ''b'' ''skipped'' False)] None)))) = 12"
  by (simp only: example_no_fonts_run) (simp add: fontsNotFoundWarning_def)

end
